theory Spec2Isabelle
  imports Main "HOL-Library.AList"
begin

section \<open>Knock Knock: the views of \<^verbatim>\<open>main/views.py\<close>\<close>

text \<open>
  The views are embedded as functions from the database and the request to either an
  exception or a response together with the database after the request. Every
  \<^verbatim>\<open>raise\<close> of a view happens before its first write, so an exception carries
  no database: the database of the caller is the database after a failed request.
\<close>

subsection \<open>Python strings, \<^verbatim>\<open>int()\<close> and \<^verbatim>\<open>date.fromisoformat()\<close>\<close>

text \<open>
  Strings are lists of code points below 256. \<^verbatim>\<open>str.strip()\<close> drops the
  characters \<^verbatim>\<open>\t \n \v \f \r \x1c \x1d \x1e \x1f \x85 \xa0\<close> and the space.
\<close>

definition py_isspace :: "char \<Rightarrow> bool" where
  "py_isspace c = ((9::nat) \<le> of_char c \<and> of_char c \<le> (13::nat)
                   \<or> (28::nat) \<le> of_char c \<and> of_char c \<le> (32::nat)
                   \<or> of_char c = (133::nat) \<or> of_char c = (160::nat))"

definition strip :: "string \<Rightarrow> string" where
  "strip s = rev (dropWhile py_isspace (rev (dropWhile py_isspace s)))"

text \<open>
  The builtin \<^verbatim>\<open>int\<close> and \<^verbatim>\<open>datetime.date.fromisoformat\<close> are library
  functions whose grammar is not the views' and changes with the Python version: the
  views below take them as the parameters \<open>to_int\<close> and \<open>parse_date\<close>, functions
  from strings that give \<open>None\<close> where the library raises \<^verbatim>\<open>ValueError\<close>, and the
  properties hold for every such function. The examples apply the views to
  \<open>py_int\<close> and \<open>fromisoformat_py37\<close>.
\<close>

text \<open>
  \<open>py_int\<close> is \<^verbatim>\<open>int(s)\<close> of Python 3.11. The whitespace it skips is
  \<^verbatim>\<open>\t \n \v \f \r \x85 \xa0\<close> and the space, not \<^verbatim>\<open>\x1c\<close> to \<^verbatim>\<open>\x1f\<close>;
  one sign is allowed; the rest is a decimal literal that starts with a digit, with
  single underscores allowed between digits, as in \<^verbatim>\<open>int('1_0') == 10\<close>; and a
  literal of more than 4300 digits is refused.
\<close>

definition int_isspace :: "char \<Rightarrow> bool" where
  "int_isspace c = ((9::nat) \<le> of_char c \<and> of_char c \<le> (13::nat)
                    \<or> of_char c = (32::nat)
                    \<or> of_char c = (133::nat) \<or> of_char c = (160::nat))"

definition is_digit :: "char \<Rightarrow> bool" where
  "is_digit c = ((48::nat) \<le> of_char c \<and> of_char c \<le> (57::nat))"

definition digit_of :: "char \<Rightarrow> nat" where
  "digit_of c = of_char c - 48"

fun digits_val :: "nat \<Rightarrow> string \<Rightarrow> nat option" where
  "digits_val acc [] = Some acc"
| "digits_val acc (c # cs) =
     (if c = CHR ''_'' then
        (case cs of [] \<Rightarrow> None
         | d # _ \<Rightarrow> if is_digit d then digits_val acc cs else None)
      else if is_digit c then digits_val (10 * acc + digit_of c) cs
      else None)"

definition py_int :: "string \<Rightarrow> int option" where
  "py_int s =
     (let t = rev (dropWhile int_isspace (rev (dropWhile int_isspace s)));
          neg = (case t of [] \<Rightarrow> False | c # _ \<Rightarrow> c = CHR ''-'');
          body = (case t of [] \<Rightarrow> []
                  | c # r \<Rightarrow> if c = CHR ''-'' \<or> c = CHR ''+'' then r else t)
      in case body of [] \<Rightarrow> None
         | c # _ \<Rightarrow>
             if is_digit c \<and> length (filter is_digit body) \<le> 4300
             then map_option (\<lambda>n. if neg then - int n else int n) (digits_val 0 body)
             else None)"

subsection \<open>The data model\<close>

text \<open>
  Modelled from the spec: \<^verbatim>\<open>main/models.py\<close> is not among the sources. The
  fields of \<^verbatim>\<open>Knock\<close> are the ones of the spec's data model and the ones the views
  read (\<^verbatim>\<open>title\<close>, \<^verbatim>\<open>category\<close>, \<^verbatim>\<open>request_date\<close>); users and knocks
  are named by their primary keys.
\<close>

datatype Status = OPEN | RESERVED | CLOSED

record date =
  year :: nat
  month :: nat
  day :: nat

record knock =
  requester :: nat
  assigned_to :: "nat option"
  status :: Status
  request_stars :: "int option"
  work_stars :: "int option"
  title :: string
  category :: string
  request_date :: date
  update_time :: nat

text \<open>
  The tables: the primary keys of the user rows, the \<^verbatim>\<open>Knock\<close> rows in table
  order, and the \<^verbatim>\<open>KnockSubmit\<close> rows as pairs (knock, user).
\<close>

record db =
  users :: "nat list"
  knocks :: "(nat \<times> knock) list"
  knocksubmits :: "(nat \<times> nat) list"

text \<open>
  \<^verbatim>\<open>request.user\<close> is \<open>None\<close> for the anonymous user, whose \<^verbatim>\<open>pk\<close> is
  \<^verbatim>\<open>None\<close>; \<open>perms\<close> are the permissions \<^verbatim>\<open>has_perm\<close> grants the user.
\<close>

record user =
  pk :: nat
  perms :: "string list"

record request =
  user :: "user option"
  GET :: "string \<rightharpoonup> string"
  POST :: "string \<rightharpoonup> string"

datatype error =
    Http404
  | PermissionDenied string
  | AttributeError
  | PageNotAnInteger
  | EmptyPage

datatype response = RedirectKnockDetail nat | RedirectLogin

definition has_perm :: "request \<Rightarrow> string \<Rightarrow> bool" where
  "has_perm request perm =
     (case user request of None \<Rightarrow> False | Some u \<Rightarrow> perm \<in> set (perms u))"

definition get_object_or_404 :: "(nat \<times> 'a) list \<Rightarrow> nat \<Rightarrow> error + 'a" where
  "get_object_or_404 rows k =
     (case map_of rows k of None \<Rightarrow> Inl Http404 | Some obj \<Rightarrow> Inr obj)"

definition get_user_or_404 :: "nat list \<Rightarrow> nat \<Rightarrow> error + nat" where
  "get_user_or_404 rows k = (if k \<in> set rows then Inr k else Inl Http404)"

definition submit_exists :: "db \<Rightarrow> nat \<Rightarrow> nat \<Rightarrow> bool" where
  "submit_exists d k u = ((k, u) \<in> set (knocksubmits d))"

text \<open>
  Modelled from the spec: \<^verbatim>\<open>Knock.save\<close> of the missing \<^verbatim>\<open>main/models.py\<close>.
  It writes the row, touches \<^verbatim>\<open>update_time\<close>, and the status goes from
  \<^verbatim>\<open>OPEN\<close> to \<^verbatim>\<open>RESERVED\<close> once a worker is assigned.
\<close>

definition knock_save :: "nat \<Rightarrow> db \<Rightarrow> nat \<Rightarrow> knock \<Rightarrow> db" where
  "knock_save now d k obj =
     d\<lparr>knocks :=
         AList.update k
           (obj\<lparr>update_time := now,
                status := (if status obj = OPEN \<and> assigned_to obj \<noteq> None
                           then RESERVED else status obj)\<rparr>)
           (knocks d)\<rparr>"

text \<open>\<^verbatim>\<open>knock.submits.add(user)\<close>: a row of the join table, unless it is there.\<close>

definition submits_add :: "db \<Rightarrow> nat \<Rightarrow> nat \<Rightarrow> db" where
  "submits_add d k u =
     (if (k, u) \<in> set (knocksubmits d) then d
      else d\<lparr>knocksubmits := knocksubmits d @ [(k, u)]\<rparr>)"

subsection \<open>\<^verbatim>\<open>rating\<close>\<close>

text \<open>
  \<^verbatim>\<open>@login_required\<close> sends the anonymous user to the login page.
  \<open>to_int\<close> is the builtin \<^verbatim>\<open>int\<close>. With no
  assigned worker, \<^verbatim>\<open>knock.assigned_to\<close> is \<^verbatim>\<open>None\<close> and reading its
  \<^verbatim>\<open>pk\<close> raises \<^verbatim>\<open>AttributeError\<close>.
\<close>

definition rating ::
  "(string \<Rightarrow> int option) \<Rightarrow> nat \<Rightarrow> db \<Rightarrow> request \<Rightarrow> nat \<Rightarrow> error + response \<times> db" where
  "rating to_int now d request knock_pk =
     (case user request of
        None \<Rightarrow> Inr (RedirectLogin, d)
      | Some u \<Rightarrow>
     (case get_object_or_404 (knocks d) knock_pk of
        Inl e \<Rightarrow> Inl e
      | Inr obj \<Rightarrow>
     (case POST request ''rating'' of
        None \<Rightarrow> Inl (PermissionDenied ''rating field missing'')
      | Some s \<Rightarrow>
     (case to_int s of
        None \<Rightarrow> Inl (PermissionDenied ''rating must be a value between 1 and 5'')
      | Some rating_value \<Rightarrow>
         if rating_value < 1 \<or> rating_value > 5
         then Inl (PermissionDenied ''rating must be a value between 1 and 5'')
         else
          (case assigned_to obj of
             None \<Rightarrow> Inl AttributeError
           | Some w \<Rightarrow>
              if w = pk u then
                (if request_stars obj \<noteq> None
                 then Inl (PermissionDenied ''Worker already rated this Knock Knock'')
                 else Inr (RedirectKnockDetail knock_pk,
                           knock_save now d knock_pk
                             (obj\<lparr>request_stars := Some rating_value\<rparr>)))
              else if requester obj = pk u then
                (if work_stars obj \<noteq> None
                 then Inl (PermissionDenied ''Worker already rated this Knock Knock'')
                 else Inr (RedirectKnockDetail knock_pk,
                           knock_save now d knock_pk
                             (obj\<lparr>work_stars := Some rating_value\<rparr>)))
              else Inl (PermissionDenied
                     ''Only requester and assigned can rate this Knock Knock''))))))"

subsection \<open>\<^verbatim>\<open>submit\<close> and \<^verbatim>\<open>assing_to\<close>\<close>

text \<open>
  \<^verbatim>\<open>@permission_required\<close> sends a user without the permission to the login page,
  as \<^verbatim>\<open>@login_required\<close> does with the anonymous user.
\<close>

definition submit :: "nat \<Rightarrow> db \<Rightarrow> request \<Rightarrow> nat \<Rightarrow> error + response \<times> db" where
  "submit now d request knock_pk =
     (case user request of
        None \<Rightarrow> Inr (RedirectLogin, d)
      | Some u \<Rightarrow>
         if \<not> has_perm request ''main.can_submit_for_knocks'' then Inr (RedirectLogin, d)
         else
          (case get_object_or_404 (knocks d) knock_pk of
             Inl e \<Rightarrow> Inl e
           | Inr obj \<Rightarrow>
              if requester obj = pk u
              then Inl (PermissionDenied ''Cannot submit to owned knocks'')
              else if submit_exists d knock_pk (pk u)
              then Inl (PermissionDenied ''User already submitted for this Knock Knock'')
              else Inr (RedirectKnockDetail knock_pk,
                        knock_save now (submits_add d knock_pk (pk u)) knock_pk obj)))"

definition assing_to ::
  "nat \<Rightarrow> db \<Rightarrow> request \<Rightarrow> nat \<Rightarrow> nat \<Rightarrow> error + response \<times> db" where
  "assing_to now d request knock_pk user_pk =
     (case user request of
        None \<Rightarrow> Inr (RedirectLogin, d)
      | Some u \<Rightarrow>
     (case get_object_or_404 (knocks d) knock_pk of
        Inl e \<Rightarrow> Inl e
      | Inr obj \<Rightarrow>
     (case get_user_or_404 (users d) user_pk of
        Inl e \<Rightarrow> Inl e
      | Inr cand \<Rightarrow>
         if requester obj \<noteq> pk u
         then Inl (PermissionDenied ''Can assign only to owned Knock Knocks'')
         else if \<not> submit_exists d knock_pk user_pk
         then Inl (PermissionDenied ''Cannot assing if worker didn't submit before'')
         else Inr (RedirectKnockDetail knock_pk,
                   knock_save now d knock_pk (obj\<lparr>assigned_to := Some cand\<rparr>)))))"

subsection \<open>\<^verbatim>\<open>KnockDeleteView\<close>\<close>

text \<open>
  \<^verbatim>\<open>test_func\<close> reads the object twice; both reads give the same row. The
  dispatch of \<^verbatim>\<open>LoginRequiredMixin\<close> and \<^verbatim>\<open>UserPassesTestMixin\<close> sends the
  anonymous user to the login page, raises \<^verbatim>\<open>PermissionDenied\<close> when the test
  fails, and otherwise reaches the handler of \<^verbatim>\<open>DeleteView\<close>, which deletes the
  object on POST.
\<close>

definition test_func :: "db \<Rightarrow> request \<Rightarrow> nat \<Rightarrow> error + bool" where
  "test_func d request knock_pk =
     (case get_object_or_404 (knocks d) knock_pk of
        Inl e \<Rightarrow> Inl e
      | Inr obj \<Rightarrow>
         Inr (Some (requester obj) = map_option pk (user request)
              \<and> status obj \<in> set [OPEN, RESERVED]))"

datatype dispatch = Handler | ToLogin

definition KnockDeleteView_dispatch :: "db \<Rightarrow> request \<Rightarrow> nat \<Rightarrow> error + dispatch" where
  "KnockDeleteView_dispatch d request knock_pk =
     (case user request of
        None \<Rightarrow> Inr ToLogin
      | Some u \<Rightarrow>
         (case test_func d request knock_pk of
            Inl e \<Rightarrow> Inl e
          | Inr ok \<Rightarrow> if ok then Inr Handler else Inl (PermissionDenied [])))"

subsection \<open>\<^verbatim>\<open>search\<close>: the filters\<close>

text \<open>
  \<open>fromisoformat_py37\<close> is \<^verbatim>\<open>datetime.date.fromisoformat\<close> of Python 3.7 to
  3.10, which read the format \<^verbatim>\<open>YYYY-MM-DD\<close> and nothing else. Python 3.11 and
  later read further formats, \<^verbatim>\<open>YYYYMMDD\<close> and week dates among them; on the
  strings of the examples all versions agree.
\<close>

definition digits_nat :: "string \<Rightarrow> nat" where
  "digits_nat s = foldl (\<lambda>a c. 10 * a + digit_of c) 0 s"

definition is_leap :: "nat \<Rightarrow> bool" where
  "is_leap y = (y mod 4 = 0 \<and> (y mod 100 \<noteq> 0 \<or> y mod 400 = 0))"

definition days_in_month :: "nat \<Rightarrow> nat \<Rightarrow> nat" where
  "days_in_month y m =
     (if m = 2 then (if is_leap y then 29 else 28)
      else if m \<in> set [4, 6, 9, 11] then 30 else 31)"

definition fromisoformat_py37 :: "string \<Rightarrow> date option" where
  "fromisoformat_py37 s =
     (if length s = 10 \<and> s ! 4 = CHR ''-'' \<and> s ! 7 = CHR ''-''
         \<and> list_all is_digit (take 4 s)
         \<and> list_all is_digit (take 2 (drop 5 s))
         \<and> list_all is_digit (drop 8 s)
      then
        (let y = digits_nat (take 4 s);
             m = digits_nat (take 2 (drop 5 s));
             dd = digits_nat (drop 8 s)
         in if 1 \<le> y \<and> 1 \<le> m \<and> m \<le> 12 \<and> 1 \<le> dd \<and> dd \<le> days_in_month y m
            then Some \<lparr>year = y, month = m, day = dd\<rparr>
            else None)
      else None)"

text \<open>\<^verbatim>\<open>str(date)\<close>: the fields in decimal, padded with zeros.\<close>

fun show_digits :: "nat \<Rightarrow> nat \<Rightarrow> string" where
  "show_digits 0 n = []"
| "show_digits (Suc w) n = show_digits w (n div 10) @ [char_of (48 + n mod 10)]"

definition isoformat :: "date \<Rightarrow> string" where
  "isoformat dt =
     show_digits 4 (year dt) @ ''-'' @ show_digits 2 (month dt) @ ''-''
       @ show_digits 2 (day dt)"

text \<open>
  The lookup \<^verbatim>\<open>icontains\<close>: the value contains the pattern as a substring, the
  letters \<^verbatim>\<open>A\<close> to \<^verbatim>\<open>Z\<close> compared without case.
\<close>

definition lower :: "char \<Rightarrow> char" where
  "lower c =
     (if (65::nat) \<le> of_char c \<and> of_char c \<le> (90::nat)
      then char_of (of_char c + (32::nat)) else c)"

fun startswith :: "string \<Rightarrow> string \<Rightarrow> bool" where
  "startswith s [] = True"
| "startswith [] (p # ps) = False"
| "startswith (c # cs) (p # ps) = (c = p \<and> startswith cs ps)"

fun contains :: "string \<Rightarrow> string \<Rightarrow> bool" where
  "contains [] p = (p = [])"
| "contains (c # cs) p = (startswith (c # cs) p \<or> contains cs p)"

definition icontains :: "string \<Rightarrow> string \<Rightarrow> bool" where
  "icontains val pat = contains (map lower val) (map lower pat)"

text \<open>
  The \<^verbatim>\<open>Q\<close> objects the view builds. \<^verbatim>\<open>Q() & q\<close> is \<^verbatim>\<open>q\<close>, and a
  filter by \<^verbatim>\<open>Q()\<close> keeps every row.
\<close>

datatype Q =
    Q_empty
  | Q_title_icontains string
  | Q_request_date date
  | Q_category_icontains string
  | Q_and Q Q

fun q_and :: "Q \<Rightarrow> Q \<Rightarrow> Q" where
  "q_and Q_empty q = q"
| "q_and q Q_empty = q"
| "q_and q q' = Q_and q q'"

fun q_matches :: "Q \<Rightarrow> knock \<Rightarrow> bool" where
  "q_matches Q_empty obj = True"
| "q_matches (Q_title_icontains s) obj = icontains (title obj) s"
| "q_matches (Q_request_date dt) obj = (request_date obj = dt)"
| "q_matches (Q_category_icontains s) obj = icontains (category obj) s"
| "q_matches (Q_and q q') obj = (q_matches q obj \<and> q_matches q' obj)"

definition GET_get :: "request \<Rightarrow> string \<Rightarrow> string \<Rightarrow> string" where
  "GET_get request key dflt = (case GET request key of None \<Rightarrow> dflt | Some s \<Rightarrow> s)"

text \<open>
  Lines 150--166: the list \<^verbatim>\<open>filters\<close>. The test before the date is
  \<^verbatim>\<open>title is not None\<close>, which holds of every string, so the date is always
  parsed. \<open>parse_date\<close> is \<^verbatim>\<open>datetime.date.fromisoformat\<close>.
\<close>

definition search_filters :: "(string \<Rightarrow> date option) \<Rightarrow> request \<Rightarrow> Q list" where
  "search_filters parse_date request =
     (let filters = [];
          title_s = GET_get request ''title'' [];
          filters = (if strip title_s \<noteq> [] then filters @ [Q_title_icontains title_s]
                     else filters);
          date_s = GET_get request ''date'' [];
          filters = (case parse_date date_s of
                       Some dt \<Rightarrow> filters @ [Q_request_date dt]
                     | None \<Rightarrow> filters);
          category_s = GET_get request ''category'' [];
          filters = (if strip category_s \<noteq> []
                     then filters @ [Q_category_icontains category_s] else filters)
      in filters)"

text \<open>Lines 149 and 168--172: \<^verbatim>\<open>results\<close> before the pagination.\<close>

definition search_results ::
  "(string \<Rightarrow> date option) \<Rightarrow> db \<Rightarrow> request \<Rightarrow> (nat \<times> knock) list" where
  "search_results parse_date d request =
     (let filters = search_filters parse_date request;
          filter_acc = foldl q_and Q_empty filters
      in if length filters > 0
         then filter (\<lambda>row. q_matches filter_acc (snd row)) (knocks d)
         else [])"

subsection \<open>\<^verbatim>\<open>search\<close>: the pagination\<close>

text \<open>
  Django's \<^verbatim>\<open>Paginator\<close> with its methods \<^verbatim>\<open>validate_number\<close> and
  \<^verbatim>\<open>page\<close>. The page number arrives as \<^verbatim>\<open>None\<close>, as a string of the query, or
  as an integer of the view.
\<close>

record paginator =
  object_list :: "(nat \<times> knock) list"
  per_page :: nat
  orphans :: nat
  allow_empty_first_page :: bool

record page =
  page_object_list :: "(nat \<times> knock) list"
  number :: int

datatype page_arg = PageNone | PageStr string | PageInt int

definition Paginator :: "(nat \<times> knock) list \<Rightarrow> nat \<Rightarrow> paginator" where
  "Paginator rows n =
     \<lparr>object_list = rows, per_page = n, orphans = 0, allow_empty_first_page = True\<rparr>"

definition count :: "paginator \<Rightarrow> nat" where
  "count p = length (object_list p)"

definition num_pages :: "paginator \<Rightarrow> nat" where
  "num_pages p =
     (if count p = 0 \<and> \<not> allow_empty_first_page p then 0
      else (let hits = max 1 (count p - orphans p)
            in (hits + per_page p - 1) div per_page p))"

definition validate_number ::
  "(string \<Rightarrow> int option) \<Rightarrow> paginator \<Rightarrow> page_arg \<Rightarrow> error + int" where
  "validate_number to_int p arg =
     (case (case arg of PageNone \<Rightarrow> None | PageStr s \<Rightarrow> to_int s | PageInt n \<Rightarrow> Some n) of
        None \<Rightarrow> Inl PageNotAnInteger
      | Some n \<Rightarrow>
         if n < 1 then Inl EmptyPage
         else if n > int (num_pages p) then Inl EmptyPage
         else Inr n)"

definition Paginator_page ::
  "(string \<Rightarrow> int option) \<Rightarrow> paginator \<Rightarrow> page_arg \<Rightarrow> error + page" where
  "Paginator_page to_int p arg =
     (case validate_number to_int p arg of
        Inl e \<Rightarrow> Inl e
      | Inr n \<Rightarrow>
         (let bottom = nat (n - 1) * per_page p;
              top = bottom + per_page p;
              top = (if top + orphans p \<ge> count p then count p else top)
          in Inr \<lparr>page_object_list = take (top - bottom) (drop bottom (object_list p)),
                  number = n\<rparr>))"

record search_ctx =
  results :: page
  url_params :: string

text \<open>
  Lines 174--186. \<^verbatim>\<open>date\<close> is the parsed date when the parameter was one, and the
  parameter itself otherwise.
\<close>

definition search ::
  "(string \<Rightarrow> int option) \<Rightarrow> (string \<Rightarrow> date option) \<Rightarrow> db \<Rightarrow> request
     \<Rightarrow> error + search_ctx" where
  "search to_int parse_date d request =
     (let rows = search_results parse_date d request;
          pg = Paginator rows 20;
          arg = (case GET request ''page'' of None \<Rightarrow> PageNone | Some s \<Rightarrow> PageStr s);
          res = (case Paginator_page to_int pg arg of
                   Inr r \<Rightarrow> Inr r
                 | Inl e \<Rightarrow>
                    (case e of
                       PageNotAnInteger \<Rightarrow> Paginator_page to_int pg (PageInt 1)
                     | EmptyPage \<Rightarrow> Paginator_page to_int pg (PageInt (int (num_pages pg)))
                     | _ \<Rightarrow> Inl e));
          title_s = GET_get request ''title'' [];
          date_s = (case parse_date (GET_get request ''date'' []) of
                      Some dt \<Rightarrow> isoformat dt
                    | None \<Rightarrow> GET_get request ''date'' []);
          category_s = GET_get request ''category'' []
      in case res of
           Inl e \<Rightarrow> Inl e
         | Inr r \<Rightarrow>
            Inr \<lparr>results = r,
                 url_params = ''title='' @ title_s @ ''&date='' @ date_s
                                @ ''&category='' @ category_s\<rparr>)"

subsection \<open>A small database for the examples\<close>

definition bike :: knock where
  "bike = \<lparr>requester = 1, assigned_to = Some 2, status = RESERVED,
            request_stars = None, work_stars = None,
            title = ''Fix my Bike'', category = ''Repair'',
            request_date = \<lparr>year = 2024, month = 2, day = 29\<rparr>, update_time = 0\<rparr>"

definition lawn :: knock where
  "lawn = \<lparr>requester = 1, assigned_to = None, status = OPEN,
            request_stars = None, work_stars = None,
            title = ''Mow the lawn'', category = ''Garden'',
            request_date = \<lparr>year = 2024, month = 3, day = 1\<rparr>, update_time = 0\<rparr>"

definition fence :: knock where
  "fence = \<lparr>requester = 1, assigned_to = Some 3, status = CLOSED,
             request_stars = Some 5, work_stars = Some 4,
             title = ''Paint the fence'', category = ''Garden'',
             request_date = \<lparr>year = 2024, month = 3, day = 1\<rparr>, update_time = 0\<rparr>"

definition shop :: db where
  "shop = \<lparr>users = [1, 2, 3, 4],
            knocks = [(10, bike), (11, lawn), (12, fence)],
            knocksubmits = [(10, 2), (10, 3), (11, 3), (12, 3), (12, 2)]\<rparr>"

definition as_user ::
  "nat \<Rightarrow> string list \<Rightarrow> (string \<times> string) list \<Rightarrow> (string \<times> string) list \<Rightarrow> request" where
  "as_user u ps query form =
     \<lparr>user = Some \<lparr>pk = u, perms = ps\<rparr>, GET = map_of query, POST = map_of form\<rparr>"

definition anonymous :: "(string \<times> string) list \<Rightarrow> (string \<times> string) list \<Rightarrow> request" where
  "anonymous query form = \<lparr>user = None, GET = map_of query, POST = map_of form\<rparr>"

text \<open>Forty-five open knocks of user 1, with the keys 0 to 44.\<close>

definition lawns :: db where
  "lawns = \<lparr>users = [1, 2], knocks = map (\<lambda>i. (i, lawn)) [0..<45], knocksubmits = []\<rparr>"

section \<open>Properties\<close>

subsection \<open>Saving a knock\<close>

lemma get_knock_save:
  "get_object_or_404 (knocks (knock_save now d k obj)) k =
     Inr (obj\<lparr>update_time := now,
              status := (if status obj = OPEN \<and> assigned_to obj \<noteq> None
                         then RESERVED else status obj)\<rparr>)"
  by (simp add: get_object_or_404_def knock_save_def update_conv')

lemma get_knock_save_other:
  "k' \<noteq> k \<Longrightarrow>
   get_object_or_404 (knocks (knock_save now d k obj)) k' = get_object_or_404 (knocks d) k'"
  by (simp add: get_object_or_404_def knock_save_def update_conv')

lemma knock_save_tables [simp]:
  "users (knock_save now d k obj) = users d"
  "knocksubmits (knock_save now d k obj) = knocksubmits d"
  by (simp_all add: knock_save_def)

subsection \<open>Rating\<close>

lemma rating_worker:
  assumes "user request = Some u"
    and "get_object_or_404 (knocks d) knock_pk = Inr obj"
    and "assigned_to obj = Some (pk u)"
    and "POST request ''rating'' = Some s" and "to_int s = Some v" and "1 \<le> v" and "v \<le> 5"
  shows "rating to_int now d request knock_pk =
           (if request_stars obj \<noteq> None
            then Inl (PermissionDenied ''Worker already rated this Knock Knock'')
            else Inr (RedirectKnockDetail knock_pk,
                      knock_save now d knock_pk (obj\<lparr>request_stars := Some v\<rparr>)))"
  using assms by (simp add: rating_def)

lemma rating_requester:
  assumes "user request = Some u"
    and "get_object_or_404 (knocks d) knock_pk = Inr obj"
    and "assigned_to obj = Some w" and "w \<noteq> pk u" and "requester obj = pk u"
    and "POST request ''rating'' = Some s" and "to_int s = Some v" and "1 \<le> v" and "v \<le> 5"
  shows "rating to_int now d request knock_pk =
           (if work_stars obj \<noteq> None
            then Inl (PermissionDenied ''Worker already rated this Knock Knock'')
            else Inr (RedirectKnockDetail knock_pk,
                      knock_save now d knock_pk (obj\<lparr>work_stars := Some v\<rparr>)))"
  using assms by (simp add: rating_def)

lemma rating_stranger:
  assumes "user request = Some u"
    and "get_object_or_404 (knocks d) knock_pk = Inr obj"
    and "assigned_to obj = Some w" and "w \<noteq> pk u" and "requester obj \<noteq> pk u"
    and "POST request ''rating'' = Some s" and "to_int s = Some v" and "1 \<le> v" and "v \<le> 5"
  shows "rating to_int now d request knock_pk =
           Inl (PermissionDenied ''Only requester and assigned can rate this Knock Knock'')"
  using assms by (simp add: rating_def)

text \<open>
  A request that \<^verbatim>\<open>rating\<close> answers without an exception is either the anonymous
  one, sent to the login page with the database as it was, or one with a value from 1 to
  5 on a knock that has a worker.
\<close>

lemma rating_Inr_cases:
  assumes "rating to_int now d request knock_pk = Inr (resp, d')"
  shows "(resp = RedirectLogin \<and> d' = d \<and> user request = None)
       \<or> (\<exists>obj w s v. get_object_or_404 (knocks d) knock_pk = Inr obj
             \<and> assigned_to obj = Some w
             \<and> POST request ''rating'' = Some s \<and> to_int s = Some v \<and> 1 \<le> v \<and> v \<le> 5)"
  using assms
  by (auto simp: rating_def split: option.splits sum.splits if_splits)

text \<open>The worker first and the requester second.\<close>

lemma rating_worker_then_requester:
  assumes k: "get_object_or_404 (knocks d) knock_pk = Inr obj"
    and w: "assigned_to obj = Some w" and r: "requester obj = r" and rw: "r \<noteq> w"
    and fresh: "request_stars obj = None" "work_stars obj = None"
    and qw: "user qw = Some uw" "pk uw = w"
    and vw: "POST qw ''rating'' = Some sw" "to_int sw = Some vw" "1 \<le> vw" "vw \<le> 5"
    and qr: "user qr = Some ur" "pk ur = r"
    and vr: "POST qr ''rating'' = Some sr" "to_int sr = Some vr" "1 \<le> vr" "vr \<le> 5"
  shows "\<exists>d1 d2 obj2.
           rating to_int t1 d qw knock_pk = Inr (RedirectKnockDetail knock_pk, d1)
         \<and> rating to_int t2 d1 qr knock_pk = Inr (RedirectKnockDetail knock_pk, d2)
         \<and> get_object_or_404 (knocks d2) knock_pk = Inr obj2
         \<and> request_stars obj2 = Some vw \<and> work_stars obj2 = Some vr"
proof -
  let ?st = "\<lambda>x. if status x = OPEN \<and> assigned_to x \<noteq> None then RESERVED else status x"
  let ?o1 = "obj\<lparr>request_stars := Some vw\<rparr>"
  let ?d1 = "knock_save t1 d knock_pk ?o1"
  let ?s1 = "?o1\<lparr>update_time := t1, status := ?st ?o1\<rparr>"
  have 1: "rating to_int t1 d qw knock_pk = Inr (RedirectKnockDetail knock_pk, ?d1)"
    using rating_worker [where to_int = to_int, OF qw(1) k _ vw] w qw(2) fresh by simp
  have g1: "get_object_or_404 (knocks ?d1) knock_pk = Inr ?s1"
    by (rule get_knock_save)
  have 2: "rating to_int t2 ?d1 qr knock_pk =
             Inr (RedirectKnockDetail knock_pk,
                  knock_save t2 ?d1 knock_pk (?s1\<lparr>work_stars := Some vr\<rparr>))"
    using rating_requester [where to_int = to_int, OF qr(1) g1 _ _ _ vr, of w] w r rw qr(2) fresh by simp
  show ?thesis
    using 1 2 by (simp add: get_knock_save)
qed

text \<open>The requester first and the worker second.\<close>

lemma rating_requester_then_worker:
  assumes k: "get_object_or_404 (knocks d) knock_pk = Inr obj"
    and w: "assigned_to obj = Some w" and r: "requester obj = r" and rw: "r \<noteq> w"
    and fresh: "request_stars obj = None" "work_stars obj = None"
    and qw: "user qw = Some uw" "pk uw = w"
    and vw: "POST qw ''rating'' = Some sw" "to_int sw = Some vw" "1 \<le> vw" "vw \<le> 5"
    and qr: "user qr = Some ur" "pk ur = r"
    and vr: "POST qr ''rating'' = Some sr" "to_int sr = Some vr" "1 \<le> vr" "vr \<le> 5"
  shows "\<exists>d1 d2 obj2.
           rating to_int t1 d qr knock_pk = Inr (RedirectKnockDetail knock_pk, d1)
         \<and> rating to_int t2 d1 qw knock_pk = Inr (RedirectKnockDetail knock_pk, d2)
         \<and> get_object_or_404 (knocks d2) knock_pk = Inr obj2
         \<and> request_stars obj2 = Some vw \<and> work_stars obj2 = Some vr"
proof -
  let ?st = "\<lambda>x. if status x = OPEN \<and> assigned_to x \<noteq> None then RESERVED else status x"
  let ?o1 = "obj\<lparr>work_stars := Some vr\<rparr>"
  let ?d1 = "knock_save t1 d knock_pk ?o1"
  let ?s1 = "?o1\<lparr>update_time := t1, status := ?st ?o1\<rparr>"
  have 1: "rating to_int t1 d qr knock_pk = Inr (RedirectKnockDetail knock_pk, ?d1)"
    using rating_requester [where to_int = to_int, OF qr(1) k w _ _ vr] r rw qr(2) fresh by simp
  have g1: "get_object_or_404 (knocks ?d1) knock_pk = Inr ?s1"
    by (rule get_knock_save)
  have 2: "rating to_int t2 ?d1 qw knock_pk =
             Inr (RedirectKnockDetail knock_pk,
                  knock_save t2 ?d1 knock_pk (?s1\<lparr>request_stars := Some vw\<rparr>))"
    using rating_worker [where to_int = to_int, OF qw(1) g1 _ vw] w qw(2) fresh by simp
  show ?thesis
    using 1 2 by (simp add: get_knock_save)
qed

subsection \<open>Facts of the example database\<close>

lemma shop_bike: "get_object_or_404 (knocks shop) 10 = Inr bike"
  by (simp add: shop_def get_object_or_404_def)

lemma four: "py_int ''4'' = Some 4"
  by code_simp

subsection \<open>C1: who rates what\<close>

text \<open>
  C1. Let the knock have the requester \<open>r\<close> and the assigned worker \<open>w\<close>, with
  \<open>r \<noteq> w\<close>, and let a logged-in user send a rating that \<^verbatim>\<open>int\<close> reads as an
  integer from 1 to 5. If the user is
  \<open>w\<close>, the request is refused when \<^verbatim>\<open>request_stars\<close> is set, and otherwise it
  sets \<^verbatim>\<open>request_stars\<close> to the value and leaves \<^verbatim>\<open>work_stars\<close> as it was. If
  the user is \<open>r\<close>, the same holds with the two fields exchanged. Any other user is
  refused. Starting from a knock with no rating, the worker's and the requester's
  ratings both succeed in either order and leave both values stored.
\<close>

theorem rating_by_role:
  assumes actor: "user request = Some u"
    and k: "get_object_or_404 (knocks d) knock_pk = Inr obj"
    and w: "assigned_to obj = Some w" and r: "requester obj = r" and rw: "r \<noteq> w"
    and s: "POST request ''rating'' = Some s" and v: "to_int s = Some v" "1 \<le> v" "v \<le> 5"
  shows "(pk u = w \<and> request_stars obj \<noteq> None \<longrightarrow>
            rating to_int now d request knock_pk =
              Inl (PermissionDenied ''Worker already rated this Knock Knock''))
       \<and> (pk u = w \<and> request_stars obj = None \<longrightarrow>
            (\<exists>d' obj'. rating to_int now d request knock_pk = Inr (RedirectKnockDetail knock_pk, d')
               \<and> get_object_or_404 (knocks d') knock_pk = Inr obj'
               \<and> request_stars obj' = Some v \<and> work_stars obj' = work_stars obj))
       \<and> (pk u = r \<and> work_stars obj \<noteq> None \<longrightarrow>
            rating to_int now d request knock_pk =
              Inl (PermissionDenied ''Worker already rated this Knock Knock''))
       \<and> (pk u = r \<and> work_stars obj = None \<longrightarrow>
            (\<exists>d' obj'. rating to_int now d request knock_pk = Inr (RedirectKnockDetail knock_pk, d')
               \<and> get_object_or_404 (knocks d') knock_pk = Inr obj'
               \<and> work_stars obj' = Some v \<and> request_stars obj' = request_stars obj))
       \<and> (pk u \<noteq> w \<and> pk u \<noteq> r \<longrightarrow>
            rating to_int now d request knock_pk =
              Inl (PermissionDenied ''Only requester and assigned can rate this Knock Knock''))
       \<and> (\<forall>other u' s' v' now'.
            user other = Some u' \<and> POST other ''rating'' = Some s' \<and> to_int s' = Some v'
            \<and> 1 \<le> v' \<and> v' \<le> 5 \<and> pk u = w \<and> pk u' = r
            \<and> request_stars obj = None \<and> work_stars obj = None \<longrightarrow>
            (\<exists>d1 d2 obj2.
                rating to_int now d request knock_pk = Inr (RedirectKnockDetail knock_pk, d1)
              \<and> rating to_int now' d1 other knock_pk = Inr (RedirectKnockDetail knock_pk, d2)
              \<and> get_object_or_404 (knocks d2) knock_pk = Inr obj2
              \<and> request_stars obj2 = Some v \<and> work_stars obj2 = Some v')
          \<and> (\<exists>d1 d2 obj2.
                rating to_int now' d other knock_pk = Inr (RedirectKnockDetail knock_pk, d1)
              \<and> rating to_int now d1 request knock_pk = Inr (RedirectKnockDetail knock_pk, d2)
              \<and> get_object_or_404 (knocks d2) knock_pk = Inr obj2
              \<and> request_stars obj2 = Some v \<and> work_stars obj2 = Some v'))"
proof -
  have c1: "pk u = w \<and> request_stars obj \<noteq> None \<longrightarrow>
      rating to_int now d request knock_pk =
      Inl (PermissionDenied ''Worker already rated this Knock Knock'')"
    using rating_worker [where to_int = to_int, OF actor k _ s v] w by simp
  have c2: "pk u = w \<and> request_stars obj = None \<longrightarrow>
      (\<exists>d' obj'. rating to_int now d request knock_pk = Inr (RedirectKnockDetail knock_pk, d')
               \<and> get_object_or_404 (knocks d') knock_pk = Inr obj'
               \<and> request_stars obj' = Some v \<and> work_stars obj' = work_stars obj)"
    using rating_worker [where to_int = to_int, OF actor k _ s v] w by (simp add: get_knock_save)
  have c3: "pk u = r \<and> work_stars obj \<noteq> None \<longrightarrow>
      rating to_int now d request knock_pk =
      Inl (PermissionDenied ''Worker already rated this Knock Knock'')"
    using rating_requester [where to_int = to_int, OF actor k w _ _ s v] r rw by simp
  have c4: "pk u = r \<and> work_stars obj = None \<longrightarrow>
      (\<exists>d' obj'. rating to_int now d request knock_pk = Inr (RedirectKnockDetail knock_pk, d')
               \<and> get_object_or_404 (knocks d') knock_pk = Inr obj'
               \<and> work_stars obj' = Some v \<and> request_stars obj' = request_stars obj)"
    using rating_requester [where to_int = to_int, OF actor k w _ _ s v] r rw by (simp add: get_knock_save)
  have c5: "pk u \<noteq> w \<and> pk u \<noteq> r \<longrightarrow>
      rating to_int now d request knock_pk =
      Inl (PermissionDenied ''Only requester and assigned can rate this Knock Knock'')"
    using rating_stranger [where to_int = to_int, OF actor k w _ _ s v] r by auto
  have c6: "\<forall>other u' s' v' now'.
            user other = Some u' \<and> POST other ''rating'' = Some s' \<and> to_int s' = Some v'
            \<and> 1 \<le> v' \<and> v' \<le> 5 \<and> pk u = w \<and> pk u' = r
            \<and> request_stars obj = None \<and> work_stars obj = None \<longrightarrow>
            (\<exists>d1 d2 obj2.
                rating to_int now d request knock_pk = Inr (RedirectKnockDetail knock_pk, d1)
              \<and> rating to_int now' d1 other knock_pk = Inr (RedirectKnockDetail knock_pk, d2)
              \<and> get_object_or_404 (knocks d2) knock_pk = Inr obj2
              \<and> request_stars obj2 = Some v \<and> work_stars obj2 = Some v')
          \<and> (\<exists>d1 d2 obj2.
                rating to_int now' d other knock_pk = Inr (RedirectKnockDetail knock_pk, d1)
              \<and> rating to_int now d1 request knock_pk = Inr (RedirectKnockDetail knock_pk, d2)
              \<and> get_object_or_404 (knocks d2) knock_pk = Inr obj2
              \<and> request_stars obj2 = Some v \<and> work_stars obj2 = Some v')"
  proof (intro allI impI, elim conjE)
    fix other :: request and u' :: user and s' :: string and v' :: int and now' :: nat
    assume o: "user other = Some u'" "POST other ''rating'' = Some s'" "to_int s' = Some v'"
      "1 \<le> v'" "v' \<le> 5" "pk u = w" "pk u' = r"
      and fresh: "request_stars obj = None" "work_stars obj = None"
    show "(\<exists>d1 d2 obj2.
                rating to_int now d request knock_pk = Inr (RedirectKnockDetail knock_pk, d1)
              \<and> rating to_int now' d1 other knock_pk = Inr (RedirectKnockDetail knock_pk, d2)
              \<and> get_object_or_404 (knocks d2) knock_pk = Inr obj2
              \<and> request_stars obj2 = Some v \<and> work_stars obj2 = Some v')
          \<and> (\<exists>d1 d2 obj2.
                rating to_int now' d other knock_pk = Inr (RedirectKnockDetail knock_pk, d1)
              \<and> rating to_int now d1 request knock_pk = Inr (RedirectKnockDetail knock_pk, d2)
              \<and> get_object_or_404 (knocks d2) knock_pk = Inr obj2
              \<and> request_stars obj2 = Some v \<and> work_stars obj2 = Some v')"
      using rating_worker_then_requester
              [where to_int = to_int, OF k w r rw fresh actor o(6) s v o(1) o(7) o(2) o(3) o(4) o(5), of now now']
            rating_requester_then_worker
              [where to_int = to_int, OF k w r rw fresh actor o(6) s v o(1) o(7) o(2) o(3) o(4) o(5), of now' now]
      by simp
  qed
  from c1 c2 c3 c4 c5 c6 show ?thesis by (intro conjI)
qed

theorem rating_by_role_witness:
  "\<exists>d' obj'. rating py_int 7 shop (as_user 2 [] [] [(''rating'', ''4'')]) 10
                = Inr (RedirectKnockDetail 10, d')
      \<and> get_object_or_404 (knocks d') 10 = Inr obj'
      \<and> request_stars obj' = Some 4 \<and> work_stars obj' = work_stars bike"
proof -
  have a: "user (as_user 2 [] [] [(''rating'', ''4'')]) = Some \<lparr>pk = 2, perms = []\<rparr>"
    by (simp add: as_user_def)
  have w: "assigned_to bike = Some 2" and r: "requester bike = 1"
    by (simp_all add: bike_def)
  have s: "POST (as_user 2 [] [] [(''rating'', ''4'')]) ''rating'' = Some ''4''"
    by (simp add: as_user_def)
  have "pk \<lparr>pk = 2, perms = []\<rparr> = 2 \<and> request_stars bike = None"
    by (simp add: bike_def)
  with rating_by_role [where to_int = py_int, OF a shop_bike w r _ s four, of 7] show ?thesis
    by simp
qed

subsection \<open>C5: values that are not ratings\<close>

lemma six: "py_int ''6'' = Some 6"
  by code_simp

lemma separator_four: "py_int [CHR 0x1C, CHR ''4''] = None"
  by code_simp

text \<open>
  C5. On an existing knock, a request whose \<^verbatim>\<open>rating\<close> field is missing, is a
  string on which \<^verbatim>\<open>int\<close> raises, or is an integer below 1 or above 5 is refused with
  \<^verbatim>\<open>PermissionDenied\<close> for every logged-in user, whatever the user's role on the
  knock; and no answer to such a request, the login redirect of the anonymous user
  included, comes with a changed database.
\<close>

theorem rating_rejects_bad_value:
  assumes k: "get_object_or_404 (knocks d) knock_pk = Inr obj"
    and bad: "POST request ''rating'' = None
            \<or> (\<exists>s. POST request ''rating'' = Some s \<and> to_int s = None)
            \<or> (\<exists>s v. POST request ''rating'' = Some s \<and> to_int s = Some v
                    \<and> (v < 1 \<or> 5 < v))"
  shows "(\<forall>u. user request = Some u \<longrightarrow>
            rating to_int now d request knock_pk =
              Inl (PermissionDenied
                    (if POST request ''rating'' = None then ''rating field missing''
                     else ''rating must be a value between 1 and 5'')))
       \<and> (\<forall>resp d'. rating to_int now d request knock_pk = Inr (resp, d') \<longrightarrow> d' = d)"
proof (intro conjI allI impI)
  fix u :: user
  assume "user request = Some u"
  with k bad show "rating to_int now d request knock_pk =
              Inl (PermissionDenied
                    (if POST request ''rating'' = None then ''rating field missing''
                     else ''rating must be a value between 1 and 5''))"
    by (auto simp: rating_def)
next
  fix resp and d' :: db
  assume "rating to_int now d request knock_pk = Inr (resp, d')"
  from rating_Inr_cases [OF this] bad show "d' = d"
    by auto
qed

theorem rating_rejects_bad_value_witness:
  "rating py_int 7 shop (as_user 2 [] [] [(''rating'', ''6'')]) 10 =
     Inl (PermissionDenied ''rating must be a value between 1 and 5'')
   \<and> rating py_int 7 shop (as_user 2 [] [] [(''rating'', [CHR 0x1C, CHR ''4''])]) 10 =
     Inl (PermissionDenied ''rating must be a value between 1 and 5'')
   \<and> rating py_int 7 shop (as_user 2 [] [] []) 10 =
     Inl (PermissionDenied ''rating field missing'')"
proof -
  let ?six = "as_user 2 [] [] [(''rating'', ''6'')]"
  let ?sep = "as_user 2 [] [] [(''rating'', [CHR 0x1C, CHR ''4''])]"
  let ?none = "as_user 2 [] [] []"
  have s: "POST ?six ''rating'' = Some ''6''"
    and s': "POST ?sep ''rating'' = Some [CHR 0x1C, CHR ''4'']"
    and s'': "POST ?none ''rating'' = None"
    by (simp_all add: as_user_def)
  have bad: "POST ?six ''rating'' = None
            \<or> (\<exists>s. POST ?six ''rating'' = Some s \<and> py_int s = None)
            \<or> (\<exists>s v. POST ?six ''rating'' = Some s \<and> py_int s = Some v
                  \<and> (v < 1 \<or> 5 < v))"
    using s six by simp
  have bad': "POST ?sep ''rating'' = None
            \<or> (\<exists>s. POST ?sep ''rating'' = Some s \<and> py_int s = None)
            \<or> (\<exists>s v. POST ?sep ''rating'' = Some s \<and> py_int s = Some v
                  \<and> (v < 1 \<or> 5 < v))"
    using s' separator_four by simp
  have bad'': "POST ?none ''rating'' = None
            \<or> (\<exists>s. POST ?none ''rating'' = Some s \<and> py_int s = None)
            \<or> (\<exists>s v. POST ?none ''rating'' = Some s \<and> py_int s = Some v
                  \<and> (v < 1 \<or> 5 < v))"
    using s'' by simp
  have a: "user ?six = Some \<lparr>pk = 2, perms = []\<rparr>"
    and a': "user ?sep = Some \<lparr>pk = 2, perms = []\<rparr>"
    and a'': "user ?none = Some \<lparr>pk = 2, perms = []\<rparr>"
    by (simp_all add: as_user_def)
  from rating_rejects_bad_value [where to_int = py_int, OF shop_bike bad, of 7] a s
  have 1: "rating py_int 7 shop ?six 10 =
     Inl (PermissionDenied ''rating must be a value between 1 and 5'')"
    by simp
  from rating_rejects_bad_value [where to_int = py_int, OF shop_bike bad', of 7] a' s'
  have 2: "rating py_int 7 shop ?sep 10 =
     Inl (PermissionDenied ''rating must be a value between 1 and 5'')"
    by simp
  from rating_rejects_bad_value [where to_int = py_int, OF shop_bike bad'', of 7] a'' s''
  have 3: "rating py_int 7 shop ?none 10 = Inl (PermissionDenied ''rating field missing'')"
    by simp
  from 1 2 3 show ?thesis by (intro conjI)
qed

subsection \<open>C8: rating a knock that has no worker\<close>

lemma shop_lawn: "get_object_or_404 (knocks shop) 11 = Inr lawn"
  by (simp add: shop_def get_object_or_404_def)

lemma five: "py_int ''5'' = Some 5"
  by code_simp

text \<open>
  C8. On a knock whose \<^verbatim>\<open>assigned_to\<close> is absent, every rating that \<^verbatim>\<open>int\<close>
  reads as an integer from 1 to 5, by a logged-in user, the requester included, fails: the comparison with the worker comes
  first and raises \<^verbatim>\<open>AttributeError\<close>. No request at all gets such a knock rated:
  the only answer without an exception is the login redirect, with the database as it
  was.
\<close>

theorem rating_unassigned_fails:
  assumes k: "get_object_or_404 (knocks d) knock_pk = Inr obj"
    and un: "assigned_to obj = None"
  shows "(\<forall>u s v. user request = Some u \<and> POST request ''rating'' = Some s
            \<and> to_int s = Some v \<and> 1 \<le> v \<and> v \<le> 5 \<longrightarrow>
            rating to_int now d request knock_pk = Inl AttributeError)
       \<and> (\<forall>resp d'. rating to_int now d request knock_pk = Inr (resp, d') \<longrightarrow>
            resp = RedirectLogin \<and> d' = d)"
proof (intro conjI allI impI)
  fix u :: user and s :: string and v :: int
  assume "user request = Some u \<and> POST request ''rating'' = Some s
            \<and> to_int s = Some v \<and> 1 \<le> v \<and> v \<le> 5"
  with k un show "rating to_int now d request knock_pk = Inl AttributeError"
    by (simp add: rating_def)
next
  fix resp and d' :: db
  assume "rating to_int now d request knock_pk = Inr (resp, d')"
  from rating_Inr_cases [OF this] k un show "resp = RedirectLogin" and "d' = d"
    by auto
qed

theorem rating_unassigned_fails_witness:
  "requester lawn = 1 \<and>
   rating py_int 7 shop (as_user 1 [] [] [(''rating'', ''5'')]) 11 = Inl AttributeError"
proof -
  have un: "assigned_to lawn = None"
    by (simp add: lawn_def)
  have a: "user (as_user 1 [] [] [(''rating'', ''5'')]) = Some \<lparr>pk = 1, perms = []\<rparr>"
    and s: "POST (as_user 1 [] [] [(''rating'', ''5'')]) ''rating'' = Some ''5''"
    by (simp_all add: as_user_def)
  from rating_unassigned_fails [where to_int = py_int, OF shop_lawn un, of "as_user 1 [] [] [(''rating'', ''5'')]" 7]
    a s five
  show ?thesis
    by (simp add: lawn_def)
qed

subsection \<open>Assigning\<close>

lemma assing_to_requester:
  assumes "user request = Some u"
    and "get_object_or_404 (knocks d) knock_pk = Inr obj"
    and "cand \<in> set (users d)"
    and "pk u = requester obj" and "submit_exists d knock_pk cand"
  shows "assing_to now d request knock_pk cand =
           Inr (RedirectKnockDetail knock_pk,
                knock_save now d knock_pk (obj\<lparr>assigned_to := Some cand\<rparr>))"
  using assms by (simp add: assing_to_def get_user_or_404_def)

lemma assing_to_refused:
  assumes "user request = Some u"
    and "get_object_or_404 (knocks d) knock_pk = Inr obj"
    and "cand \<in> set (users d)"
    and "\<not> (pk u = requester obj \<and> submit_exists d knock_pk cand)"
  shows "assing_to now d request knock_pk cand =
           Inl (PermissionDenied
                 (if requester obj \<noteq> pk u then ''Can assign only to owned Knock Knocks''
                  else ''Cannot assing if worker didn't submit before''))"
  using assms by (auto simp: assing_to_def get_user_or_404_def)

lemma shop_fence: "get_object_or_404 (knocks shop) 12 = Inr fence"
  by (simp add: shop_def get_object_or_404_def)

text \<open>
  C2. For a logged-in user, an existing knock and an existing candidate user,
  \<^verbatim>\<open>assing_to\<close> answers without an exception exactly when the user is the requester
  and the candidate has a submission on the knock. Then the stored knock has
  \<^verbatim>\<open>assigned_to\<close> set to the candidate; otherwise the view raises
  \<^verbatim>\<open>PermissionDenied\<close>, before any write.
\<close>

theorem assing_to_iff:
  assumes actor: "user request = Some u"
    and k: "get_object_or_404 (knocks d) knock_pk = Inr obj"
    and c: "cand \<in> set (users d)"
  shows "((\<exists>resp d'. assing_to now d request knock_pk cand = Inr (resp, d'))
            \<longleftrightarrow> pk u = requester obj \<and> submit_exists d knock_pk cand)
       \<and> (pk u = requester obj \<and> submit_exists d knock_pk cand \<longrightarrow>
            (\<exists>d' obj'. assing_to now d request knock_pk cand
                          = Inr (RedirectKnockDetail knock_pk, d')
               \<and> get_object_or_404 (knocks d') knock_pk = Inr obj'
               \<and> assigned_to obj' = Some cand))
       \<and> (\<not> (pk u = requester obj \<and> submit_exists d knock_pk cand) \<longrightarrow>
            (\<exists>msg. assing_to now d request knock_pk cand = Inl (PermissionDenied msg)))"
proof -
  have ok: "pk u = requester obj \<and> submit_exists d knock_pk cand \<longrightarrow>
            (\<exists>d' obj'. assing_to now d request knock_pk cand
                          = Inr (RedirectKnockDetail knock_pk, d')
               \<and> get_object_or_404 (knocks d') knock_pk = Inr obj'
               \<and> assigned_to obj' = Some cand)"
    using assing_to_requester [OF actor k c, of now] by (simp add: get_knock_save)
  have no: "\<not> (pk u = requester obj \<and> submit_exists d knock_pk cand) \<longrightarrow>
            (\<exists>msg. assing_to now d request knock_pk cand = Inl (PermissionDenied msg))"
    using assing_to_refused [OF actor k c, of now] by blast
  have "(\<exists>resp d'. assing_to now d request knock_pk cand = Inr (resp, d'))
            \<longleftrightarrow> pk u = requester obj \<and> submit_exists d knock_pk cand"
    using ok no by (cases "pk u = requester obj \<and> submit_exists d knock_pk cand") auto
  with ok no show ?thesis by blast
qed

theorem assing_to_iff_witness:
  "(\<exists>d' obj'. assing_to 7 shop (as_user 1 [] [] []) 11 3 = Inr (RedirectKnockDetail 11, d')
       \<and> get_object_or_404 (knocks d') 11 = Inr obj' \<and> assigned_to obj' = Some 3)
   \<and> (\<exists>msg. assing_to 7 shop (as_user 1 [] [] []) 11 2 = Inl (PermissionDenied msg))"
proof -
  have a: "user (as_user 1 [] [] []) = Some \<lparr>pk = 1, perms = []\<rparr>"
    by (simp add: as_user_def)
  have c3: "3 \<in> set (users shop)" and c2: "2 \<in> set (users shop)"
    by (simp_all add: shop_def)
  have yes: "pk \<lparr>pk = 1, perms = []\<rparr> = requester lawn \<and> submit_exists shop 11 3"
    by (simp add: lawn_def shop_def submit_exists_def)
  have no: "\<not> (pk \<lparr>pk = 1, perms = []\<rparr> = requester lawn \<and> submit_exists shop 11 2)"
    by (simp add: lawn_def shop_def submit_exists_def)
  from assing_to_iff [OF a shop_lawn c3, of 7] yes
       assing_to_iff [OF a shop_lawn c2, of 7] no
  show ?thesis by blast
qed

text \<open>
  C9. \<^verbatim>\<open>assing_to\<close> looks neither at the present worker nor at the status: on a
  knock that has a worker, whatever its status, the requester naming an existing user
  with a submission on the knock succeeds, and the stored knock then has the new
  candidate as its worker.
\<close>

theorem assing_to_overwrites:
  assumes actor: "user request = Some u"
    and k: "get_object_or_404 (knocks d) knock_pk = Inr obj"
    and own: "pk u = requester obj"
    and old: "assigned_to obj = Some old"
    and c: "cand \<in> set (users d)"
    and sub: "submit_exists d knock_pk cand"
  shows "\<exists>d' obj'. assing_to now d request knock_pk cand = Inr (RedirectKnockDetail knock_pk, d')
           \<and> get_object_or_404 (knocks d') knock_pk = Inr obj'
           \<and> assigned_to obj' = Some cand"
  using assing_to_requester [OF actor k c own sub, of now] by (simp add: get_knock_save)

theorem assing_to_overwrites_witness:
  "(\<exists>d' obj'. assing_to 7 shop (as_user 1 [] [] []) 10 3 = Inr (RedirectKnockDetail 10, d')
       \<and> get_object_or_404 (knocks d') 10 = Inr obj' \<and> assigned_to obj' = Some 3)
   \<and> (\<exists>d' obj'. assing_to 7 shop (as_user 1 [] [] []) 12 2 = Inr (RedirectKnockDetail 12, d')
       \<and> get_object_or_404 (knocks d') 12 = Inr obj' \<and> assigned_to obj' = Some 2)"
proof -
  have a: "user (as_user 1 [] [] []) = Some \<lparr>pk = 1, perms = []\<rparr>"
    by (simp add: as_user_def)
  have own: "pk \<lparr>pk = 1, perms = []\<rparr> = requester bike"
    and own': "pk \<lparr>pk = 1, perms = []\<rparr> = requester fence"
    by (simp_all add: bike_def fence_def)
  have old: "assigned_to bike = Some 2" and old': "assigned_to fence = Some 3"
    by (simp_all add: bike_def fence_def)
  have c: "3 \<in> set (users shop)" and c': "2 \<in> set (users shop)"
    by (simp_all add: shop_def)
  have sub: "submit_exists shop 10 3" and sub': "submit_exists shop 12 2"
    by (simp_all add: shop_def submit_exists_def)
  from assing_to_overwrites [OF a shop_bike own old c sub, of 7]
       assing_to_overwrites [OF a shop_fence own' old' c' sub', of 7]
  show ?thesis by blast
qed

subsection \<open>Submitting\<close>

lemma submit_exists_add:
  "submit_exists (knock_save now (submits_add d k u) k obj) k u"
  by (simp add: submit_exists_def submits_add_def)

lemma submit_permitted:
  assumes "user request = Some u"
    and "has_perm request ''main.can_submit_for_knocks''"
    and "get_object_or_404 (knocks d) knock_pk = Inr obj"
  shows "submit now d request knock_pk =
           (if requester obj = pk u
            then Inl (PermissionDenied ''Cannot submit to owned knocks'')
            else if submit_exists d knock_pk (pk u)
            then Inl (PermissionDenied ''User already submitted for this Knock Knock'')
            else Inr (RedirectKnockDetail knock_pk,
                      knock_save now (submits_add d knock_pk (pk u)) knock_pk obj))"
  using assms by (simp add: submit_def)

text \<open>
  C3, as the spec has it: whoever is not the requester and has not submitted yet submits
  with success. User 4 is not the requester of knock 11 and has no submission on it, but
  holds no permission: the request is sent to the login page and the tables stay as they
  were.
\<close>

theorem submit_without_permission_counterexample:
  "get_object_or_404 (knocks shop) 11 = Inr lawn
   \<and> requester lawn \<noteq> 4 \<and> \<not> submit_exists shop 11 4
   \<and> submit 7 shop (as_user 4 [] [] []) 11 = Inr (RedirectLogin, shop)"
proof -
  have "requester lawn \<noteq> 4"
    by (simp add: lawn_def)
  moreover have "\<not> submit_exists shop 11 4"
    by (simp add: shop_def submit_exists_def)
  moreover have "submit 7 shop (as_user 4 [] [] []) 11 = Inr (RedirectLogin, shop)"
    by (simp add: submit_def as_user_def has_perm_def)
  ultimately show ?thesis
    using shop_lawn by simp
qed

text \<open>
  C3, amended. For a logged-in user who holds the permission
  \<^verbatim>\<open>main.can_submit_for_knocks\<close> and an existing knock: the requester is refused;
  a user with a submission on the knock is refused; any other user succeeds, the
  submission is recorded, and the same request again is refused. A logged-in user
  without the permission is sent to the login page and nothing is written.
\<close>

theorem submit_with_permission:
  assumes actor: "user request = Some u"
    and k: "get_object_or_404 (knocks d) knock_pk = Inr obj"
  shows "(has_perm request ''main.can_submit_for_knocks'' \<and> pk u = requester obj \<longrightarrow>
            submit now d request knock_pk =
              Inl (PermissionDenied ''Cannot submit to owned knocks''))
       \<and> (has_perm request ''main.can_submit_for_knocks'' \<and> pk u \<noteq> requester obj
            \<and> submit_exists d knock_pk (pk u) \<longrightarrow>
            submit now d request knock_pk =
              Inl (PermissionDenied ''User already submitted for this Knock Knock''))
       \<and> (has_perm request ''main.can_submit_for_knocks'' \<and> pk u \<noteq> requester obj
            \<and> \<not> submit_exists d knock_pk (pk u) \<longrightarrow>
            (\<exists>d'. submit now d request knock_pk = Inr (RedirectKnockDetail knock_pk, d')
               \<and> submit_exists d' knock_pk (pk u)
               \<and> (\<forall>now'. submit now' d' request knock_pk =
                     Inl (PermissionDenied ''User already submitted for this Knock Knock''))))
       \<and> (\<not> has_perm request ''main.can_submit_for_knocks'' \<longrightarrow>
            submit now d request knock_pk = Inr (RedirectLogin, d))"
proof -
  have c1: "has_perm request ''main.can_submit_for_knocks'' \<and> pk u = requester obj \<longrightarrow>
            submit now d request knock_pk =
              Inl (PermissionDenied ''Cannot submit to owned knocks'')"
    using submit_permitted [OF actor _ k, of now] by simp
  have c2: "has_perm request ''main.can_submit_for_knocks'' \<and> pk u \<noteq> requester obj
            \<and> submit_exists d knock_pk (pk u) \<longrightarrow>
            submit now d request knock_pk =
              Inl (PermissionDenied ''User already submitted for this Knock Knock'')"
    using submit_permitted [OF actor _ k, of now] by auto
  have c3: "has_perm request ''main.can_submit_for_knocks'' \<and> pk u \<noteq> requester obj
            \<and> \<not> submit_exists d knock_pk (pk u) \<longrightarrow>
            (\<exists>d'. submit now d request knock_pk = Inr (RedirectKnockDetail knock_pk, d')
               \<and> submit_exists d' knock_pk (pk u)
               \<and> (\<forall>now'. submit now' d' request knock_pk =
                     Inl (PermissionDenied ''User already submitted for this Knock Knock'')))"
  proof (intro impI, elim conjE)
    assume p: "has_perm request ''main.can_submit_for_knocks''"
      and nr: "pk u \<noteq> requester obj" and ns: "\<not> submit_exists d knock_pk (pk u)"
    let ?d' = "knock_save now (submits_add d knock_pk (pk u)) knock_pk obj"
    let ?obj' = "obj\<lparr>update_time := now,
                     status := (if status obj = OPEN \<and> assigned_to obj \<noteq> None
                                then RESERVED else status obj)\<rparr>"
    have 1: "submit now d request knock_pk = Inr (RedirectKnockDetail knock_pk, ?d')"
      using submit_permitted [OF actor p k, of now] nr ns by auto
    have 2: "submit_exists ?d' knock_pk (pk u)"
      by (rule submit_exists_add)
    have g: "get_object_or_404 (knocks ?d') knock_pk = Inr ?obj'"
      by (rule get_knock_save)
    have 3: "submit now' ?d' request knock_pk =
               Inl (PermissionDenied ''User already submitted for this Knock Knock'')"
      for now'
      using submit_permitted [OF actor p g, of now'] nr 2 by auto
    from 1 2 3 show "\<exists>d'. submit now d request knock_pk = Inr (RedirectKnockDetail knock_pk, d')
               \<and> submit_exists d' knock_pk (pk u)
               \<and> (\<forall>now'. submit now' d' request knock_pk =
                     Inl (PermissionDenied ''User already submitted for this Knock Knock''))"
      by blast
  qed
  have c4: "\<not> has_perm request ''main.can_submit_for_knocks'' \<longrightarrow>
            submit now d request knock_pk = Inr (RedirectLogin, d)"
    using actor by (simp add: submit_def)
  from c1 c2 c3 c4 show ?thesis by (intro conjI)
qed

theorem submit_with_permission_witness:
  "(\<exists>d'. submit 7 shop (as_user 4 [''main.can_submit_for_knocks''] [] []) 11
            = Inr (RedirectKnockDetail 11, d')
      \<and> submit_exists d' 11 4
      \<and> (\<forall>now'. submit now' d' (as_user 4 [''main.can_submit_for_knocks''] [] []) 11 =
            Inl (PermissionDenied ''User already submitted for this Knock Knock'')))
   \<and> submit 7 shop (as_user 1 [''main.can_submit_for_knocks''] [] []) 11
       = Inl (PermissionDenied ''Cannot submit to owned knocks'')"
proof -
  have a: "user (as_user 4 [''main.can_submit_for_knocks''] [] [])
             = Some \<lparr>pk = 4, perms = [''main.can_submit_for_knocks'']\<rparr>"
    and a': "user (as_user 1 [''main.can_submit_for_knocks''] [] [])
             = Some \<lparr>pk = 1, perms = [''main.can_submit_for_knocks'']\<rparr>"
    by (simp_all add: as_user_def)
  have h: "has_perm (as_user 4 [''main.can_submit_for_knocks''] [] [])
             ''main.can_submit_for_knocks''
           \<and> pk \<lparr>pk = 4, perms = [''main.can_submit_for_knocks'']\<rparr> \<noteq> requester lawn
           \<and> \<not> submit_exists shop 11
                 (pk \<lparr>pk = 4, perms = [''main.can_submit_for_knocks'']\<rparr>)"
    by (simp add: has_perm_def as_user_def lawn_def shop_def submit_exists_def)
  have h': "has_perm (as_user 1 [''main.can_submit_for_knocks''] [] [])
             ''main.can_submit_for_knocks''
           \<and> pk \<lparr>pk = 1, perms = [''main.can_submit_for_knocks'']\<rparr> = requester lawn"
    by (simp add: has_perm_def as_user_def lawn_def)
  from submit_with_permission [OF a shop_lawn, of 7] h
  have 1: "\<exists>d'. submit 7 shop (as_user 4 [''main.can_submit_for_knocks''] [] []) 11
            = Inr (RedirectKnockDetail 11, d')
      \<and> submit_exists d' 11 (pk \<lparr>pk = 4, perms = [''main.can_submit_for_knocks'']\<rparr>)
      \<and> (\<forall>now'. submit now' d' (as_user 4 [''main.can_submit_for_knocks''] [] []) 11 =
            Inl (PermissionDenied ''User already submitted for this Knock Knock''))"
    by blast
  from submit_with_permission [OF a' shop_lawn, of 7] h'
  have 2: "submit 7 shop (as_user 1 [''main.can_submit_for_knocks''] [] []) 11
       = Inl (PermissionDenied ''Cannot submit to owned knocks'')"
    by blast
  from 1 2 show ?thesis by simp
qed

subsection \<open>Deleting\<close>

text \<open>
  C4. For a logged-in user and an existing knock, \<^verbatim>\<open>test_func\<close> holds exactly when
  the user is the requester and the status is \<^verbatim>\<open>OPEN\<close> or \<^verbatim>\<open>RESERVED\<close>, and
  the view reaches the handler that deletes exactly then; any other user, and the
  requester of a \<^verbatim>\<open>CLOSED\<close> knock, gets \<^verbatim>\<open>PermissionDenied\<close>.
\<close>

theorem delete_permitted_iff:
  assumes actor: "user request = Some u"
    and k: "get_object_or_404 (knocks d) knock_pk = Inr obj"
  shows "test_func d request knock_pk =
           Inr (pk u = requester obj \<and> (status obj = OPEN \<or> status obj = RESERVED))
       \<and> (KnockDeleteView_dispatch d request knock_pk = Inr Handler
            \<longleftrightarrow> pk u = requester obj \<and> (status obj = OPEN \<or> status obj = RESERVED))
       \<and> (pk u \<noteq> requester obj \<or> status obj = CLOSED \<longrightarrow>
            KnockDeleteView_dispatch d request knock_pk = Inl (PermissionDenied []))"
proof -
  have t: "test_func d request knock_pk =
           Inr (pk u = requester obj \<and> (status obj = OPEN \<or> status obj = RESERVED))"
    using actor k by (auto simp: test_func_def)
  have "KnockDeleteView_dispatch d request knock_pk =
          (if pk u = requester obj \<and> (status obj = OPEN \<or> status obj = RESERVED)
           then Inr Handler else Inl (PermissionDenied []))"
    using actor t by (simp add: KnockDeleteView_dispatch_def)
  with t show ?thesis
    by (cases "status obj") auto
qed

theorem delete_permitted_iff_witness:
  "KnockDeleteView_dispatch shop (as_user 1 [] [] []) 10 = Inr Handler
   \<and> KnockDeleteView_dispatch shop (as_user 1 [] [] []) 12 = Inl (PermissionDenied [])
   \<and> KnockDeleteView_dispatch shop (as_user 2 [] [] []) 10 = Inl (PermissionDenied [])"
proof -
  have a: "user (as_user 1 [] [] []) = Some \<lparr>pk = 1, perms = []\<rparr>"
    and a': "user (as_user 2 [] [] []) = Some \<lparr>pk = 2, perms = []\<rparr>"
    by (simp_all add: as_user_def)
  from delete_permitted_iff [OF a shop_bike] delete_permitted_iff [OF a shop_fence]
       delete_permitted_iff [OF a' shop_bike]
  show ?thesis by (simp add: bike_def fence_def)
qed

subsection \<open>Searching: the filters\<close>

lemma q_matches_q_and: "q_matches (q_and a b) obj = (q_matches a obj \<and> q_matches b obj)"
  by (induction a b rule: q_and.induct) auto

lemma q_matches_foldl:
  "q_matches (foldl q_and acc fs) obj = (q_matches acc obj \<and> (\<forall>f \<in> set fs. q_matches f obj))"
  by (induction fs arbitrary: acc) (auto simp: q_matches_q_and)

lemma search_filters_empty:
  "(search_filters parse_date request = []) =
     (strip (GET_get request ''title'' []) = []
      \<and> parse_date (GET_get request ''date'' []) = None
      \<and> strip (GET_get request ''category'' []) = [])"
  by (auto simp: search_filters_def Let_def split: option.splits)

lemma search_filters_match:
  "(\<forall>f \<in> set (search_filters parse_date request). q_matches f obj) =
     ((strip (GET_get request ''title'' []) \<noteq> [] \<longrightarrow>
         icontains (title obj) (GET_get request ''title'' []))
      \<and> (\<forall>dt. parse_date (GET_get request ''date'' []) = Some dt \<longrightarrow>
            request_date obj = dt)
      \<and> (strip (GET_get request ''category'' []) \<noteq> [] \<longrightarrow>
            icontains (category obj) (GET_get request ''category'' [])))"
  by (auto simp: search_filters_def Let_def split: option.splits)

lemma search_results_eq:
  "search_results parse_date d request =
     (if strip (GET_get request ''title'' []) = []
         \<and> parse_date (GET_get request ''date'' []) = None
         \<and> strip (GET_get request ''category'' []) = []
      then []
      else filter
             (\<lambda>row. (strip (GET_get request ''title'' []) \<noteq> [] \<longrightarrow>
                        icontains (title (snd row)) (GET_get request ''title'' []))
                  \<and> (\<forall>dt. parse_date (GET_get request ''date'' []) = Some dt \<longrightarrow>
                        request_date (snd row) = dt)
                  \<and> (strip (GET_get request ''category'' []) \<noteq> [] \<longrightarrow>
                        icontains (category (snd row)) (GET_get request ''category'' [])))
             (knocks d))"
proof -
  have "search_results parse_date d request =
          (if search_filters parse_date request = [] then []
           else filter
                  (\<lambda>row. \<forall>f \<in> set (search_filters parse_date request). q_matches f (snd row))
                  (knocks d))"
    by (simp add: search_results_def Let_def q_matches_foldl)
  then show ?thesis
    by (simp only: search_filters_empty search_filters_match)
qed

subsection \<open>Searching: the pages\<close>

lemma num_pages_20: "num_pages (Paginator rows 20) = (max 1 (length rows) + 19) div 20"
  by (simp add: num_pages_def Paginator_def count_def Let_def)

lemma ceil20_pos: "1 \<le> (max 1 n + 19) div (20::nat)"
proof -
  have "20 \<le> max 1 n + 19" by simp
  then show ?thesis by (simp add: Suc_le_eq div_greater_zero_iff)
qed

lemma ceil20_small: "n \<le> 20 \<Longrightarrow> (max 1 n + 19) div (20::nat) = 1"
  by (rule div_nat_eqI) (simp_all add: max_def)

lemma num_pages_pos: "1 \<le> num_pages (Paginator rows 20)"
  unfolding num_pages_20 by (rule ceil20_pos)

lemma Paginator_page_valid:
  assumes "validate_number to_int (Paginator rows 20) arg = Inr n"
  shows "Paginator_page to_int (Paginator rows 20) arg =
           Inr \<lparr>page_object_list = take 20 (drop (20 * nat (n - 1)) rows), number = n\<rparr>"
  using assms
  by (simp add: Paginator_page_def Let_def Paginator_def count_def mult.commute)

lemma validate_number_PageInt:
  "1 \<le> n \<Longrightarrow> n \<le> int (num_pages p) \<Longrightarrow> validate_number to_int p (PageInt n) = Inr n"
  by (simp add: validate_number_def)

lemma Paginator_page_first:
  "Paginator_page to_int (Paginator rows 20) (PageInt 1) =
     Inr \<lparr>page_object_list = take 20 rows, number = 1\<rparr>"
proof -
  have "validate_number to_int (Paginator rows 20) (PageInt 1) = Inr 1"
    using num_pages_pos [of rows] by (intro validate_number_PageInt) simp_all
  from Paginator_page_valid [OF this] show ?thesis by simp
qed

lemma Paginator_page_last:
  "Paginator_page to_int (Paginator rows 20) (PageInt (int (num_pages (Paginator rows 20)))) =
     Inr \<lparr>page_object_list =
            take 20 (drop (20 * (num_pages (Paginator rows 20) - 1)) rows),
          number = int (num_pages (Paginator rows 20))\<rparr>"
proof -
  let ?np = "num_pages (Paginator rows 20)"
  have "validate_number to_int (Paginator rows 20) (PageInt (int ?np)) = Inr (int ?np)"
    using num_pages_pos [of rows] by (intro validate_number_PageInt) simp_all
  from Paginator_page_valid [OF this] show ?thesis
    by (simp add: nat_diff_distrib')
qed

lemma validate_number_cases:
  "validate_number to_int p arg = Inl PageNotAnInteger
   \<or> validate_number to_int p arg = Inl EmptyPage
   \<or> (\<exists>n. validate_number to_int p arg = Inr n)"
  by (cases "case arg of PageNone \<Rightarrow> None | PageStr s \<Rightarrow> to_int s | PageInt n \<Rightarrow> Some n")
     (simp_all add: validate_number_def)

text \<open>The page a query gets: the number \<^verbatim>\<open>search\<close> ends with.\<close>

lemma search_page:
  "\<exists>n. search to_int parse_date d request =
          Inr \<lparr>results =
                 \<lparr>page_object_list =
                    take 20 (drop (20 * nat (n - 1)) (search_results parse_date d request)),
                  number = n\<rparr>,
               url_params =
                 ''title='' @ GET_get request ''title'' [] @ ''&date=''
                 @ (case parse_date (GET_get request ''date'' []) of
                      Some dt \<Rightarrow> isoformat dt | None \<Rightarrow> GET_get request ''date'' [])
                 @ ''&category='' @ GET_get request ''category'' []\<rparr>
      \<and> n = (case GET request ''page'' of
               None \<Rightarrow> 1
             | Some s \<Rightarrow>
                (case to_int s of
                   None \<Rightarrow> 1
                 | Some m \<Rightarrow>
                    if m < 1
                       \<or> int (num_pages (Paginator (search_results parse_date d request) 20)) < m
                    then int (num_pages (Paginator (search_results parse_date d request) 20))
                    else m))"
proof -
  let ?rows = "search_results parse_date d request"
  let ?pg = "Paginator ?rows 20"
  let ?arg = "case GET request ''page'' of None \<Rightarrow> PageNone | Some s \<Rightarrow> PageStr s"
  consider (nan) "validate_number to_int ?pg ?arg = Inl PageNotAnInteger"
    | (empty) "validate_number to_int ?pg ?arg = Inl EmptyPage"
    | (ok) n where "validate_number to_int ?pg ?arg = Inr n"
    using validate_number_cases [of to_int ?pg ?arg] by blast
  then show ?thesis
  proof cases
    case nan
    then have g: "Paginator_page to_int ?pg ?arg = Inl PageNotAnInteger"
      by (simp add: Paginator_page_def)
    from nan have n: "GET request ''page'' = None
        \<or> (\<exists>s. GET request ''page'' = Some s \<and> to_int s = None)"
      by (auto simp: validate_number_def split: option.splits if_splits)
    show ?thesis
      using g n by (auto simp: search_def Let_def Paginator_page_first)
  next
    case empty
    then have g: "Paginator_page to_int ?pg ?arg = Inl EmptyPage"
      by (simp add: Paginator_page_def)
    from empty have n: "\<exists>s m. GET request ''page'' = Some s \<and> to_int s = Some m
        \<and> (m < 1 \<or> int (num_pages ?pg) < m)"
      by (auto simp: validate_number_def split: option.splits if_splits)
    show ?thesis
      using g n by (auto simp: search_def Let_def Paginator_page_last nat_diff_distrib')
  next
    case ok
    then have n: "\<exists>s. GET request ''page'' = Some s \<and> to_int s = Some n
        \<and> \<not> (n < 1 \<or> int (num_pages ?pg) < n)"
      by (auto simp: validate_number_def split: option.splits if_splits)
    show ?thesis
      using Paginator_page_valid [OF ok] n by (auto simp: search_def Let_def)
  qed
qed

text \<open>
  The same, with the page numbered from the \<^verbatim>\<open>page\<close> parameter: 1 when it is
  missing or no integer, itself when it is from 1 to the number of pages, and the number
  of pages when it is an integer below 1 or beyond.
\<close>

lemma search_numbered:
  "\<exists>ctx. search to_int parse_date d request = Inr ctx
     \<and> page_object_list (results ctx) =
         take 20 (drop (20 * nat (number (results ctx) - 1))
                    (search_results parse_date d request))
     \<and> number (results ctx) =
         (case GET request ''page'' of
            None \<Rightarrow> 1
          | Some s \<Rightarrow>
             (case to_int s of
                None \<Rightarrow> 1
              | Some m \<Rightarrow>
                 if m < 1
                    \<or> int ((max 1 (length (search_results parse_date d request)) + 19) div 20)
                        < m
                 then int ((max 1 (length (search_results parse_date d request)) + 19) div 20)
                 else m))"
proof -
  from search_page [of to_int parse_date d request] obtain n where
    s: "search to_int parse_date d request =
          Inr \<lparr>results =
                 \<lparr>page_object_list =
                    take 20 (drop (20 * nat (n - 1)) (search_results parse_date d request)),
                  number = n\<rparr>,
               url_params =
                 ''title='' @ GET_get request ''title'' [] @ ''&date=''
                 @ (case parse_date (GET_get request ''date'' []) of
                      Some dt \<Rightarrow> isoformat dt | None \<Rightarrow> GET_get request ''date'' [])
                 @ ''&category='' @ GET_get request ''category'' []\<rparr>"
    and n: "n = (case GET request ''page'' of
               None \<Rightarrow> 1
             | Some s \<Rightarrow>
                (case to_int s of
                   None \<Rightarrow> 1
                 | Some m \<Rightarrow>
                    if m < 1
                       \<or> int (num_pages (Paginator (search_results parse_date d request) 20)) < m
                    then int (num_pages (Paginator (search_results parse_date d request) 20))
                    else m))"
    by blast
  from n have n': "n = (case GET request ''page'' of
            None \<Rightarrow> 1
          | Some s \<Rightarrow>
             (case to_int s of
                None \<Rightarrow> 1
              | Some m \<Rightarrow>
                 if m < 1
                    \<or> int ((max 1 (length (search_results parse_date d request)) + 19) div 20)
                        < m
                 then int ((max 1 (length (search_results parse_date d request)) + 19) div 20)
                 else m))"
    by (simp only: num_pages_20)
  show ?thesis
    unfolding s using n' by simp
qed

lemma search_number_bounds:
  assumes "search to_int parse_date d request = Inr ctx"
  shows "1 \<le> number (results ctx)"
    and "number (results ctx)
           \<le> int ((max 1 (length (search_results parse_date d request)) + 19) div 20)"
proof -
  let ?np = "(max 1 (length (search_results parse_date d request)) + 19) div 20"
  have np: "1 \<le> int ?np"
    using ceil20_pos [of "length (search_results parse_date d request)"] by simp
  from search_numbered [of to_int parse_date d request] assms
  have n: "number (results ctx) =
         (case GET request ''page'' of
            None \<Rightarrow> 1
          | Some s \<Rightarrow>
             (case to_int s of
                None \<Rightarrow> 1
              | Some m \<Rightarrow> if m < 1 \<or> int ?np < m then int ?np else m))"
    by auto
  show "1 \<le> number (results ctx)"
    unfolding n using np by (auto split: option.splits)
  show "number (results ctx) \<le> int ?np"
    unfolding n using np by (auto split: option.splits)
qed

text \<open>No page that \<^verbatim>\<open>search\<close> can answer with lies beyond the rows.\<close>

lemma last_page_not_empty:
  assumes "rows \<noteq> []" and "1 \<le> n" and "n \<le> int ((max 1 (length rows) + 19) div 20)"
  shows "take 20 (drop (20 * nat (n - 1)) rows) \<noteq> []"
proof -
  have l: "1 \<le> length rows"
    using assms(1) by (cases rows) simp_all
  then have "20 * ((max 1 (length rows) + 19) div 20 - 1) < length rows"
    by (simp add: max_def)
  moreover have "nat (n - 1) \<le> (max 1 (length rows) + 19) div 20 - 1"
    using assms(2,3) by linarith
  ultimately have "20 * nat (n - 1) < length rows"
    by (meson le_less_trans mult_le_mono2)
  then show ?thesis
    by simp
qed

subsection \<open>Searching: facts of the example databases\<close>

lemma bike_titles:
  "icontains (title bike) ''BIKE''" "\<not> icontains (title lawn) ''BIKE''"
  "\<not> icontains (title fence) ''BIKE''"
  by (simp_all add: bike_def lawn_def fence_def) code_simp+

lemma titles_E:
  "icontains (title bike) ''E''" "icontains (title lawn) ''E''"
  "icontains (title fence) ''E''"
  by (simp_all add: bike_def lawn_def fence_def) code_simp+

lemma categories_gard:
  "\<not> icontains (category bike) ''gard''" "icontains (category lawn) ''gard''"
  "icontains (category fence) ''gard''"
  by (simp_all add: bike_def lawn_def fence_def) code_simp+

lemma request_dates:
  "request_date bike \<noteq> \<lparr>year = 2024, month = 3, day = 1\<rparr>"
  "request_date lawn = \<lparr>year = 2024, month = 3, day = 1\<rparr>"
  "request_date fence = \<lparr>year = 2024, month = 3, day = 1\<rparr>"
  by (simp_all add: bike_def lawn_def fence_def)

lemma yesterday: "fromisoformat_py37 ''yesterday'' = None"
  by code_simp

lemma first_of_march:
  "fromisoformat_py37 ''2024-03-01'' = Some \<lparr>year = 2024, month = 3, day = 1\<rparr>"
  by code_simp

lemma no_date: "fromisoformat_py37 [] = None"
  by (simp add: fromisoformat_py37_def)

lemma strips:
  "strip ''BIKE'' \<noteq> []" "strip ''E'' \<noteq> []" "strip ''gard'' \<noteq> []"
  "strip ''lawn'' \<noteq> []" "strip ''  '' = []" "strip [] = []"
  by code_simp+

lemma lawn_titles: "icontains (title lawn) ''lawn''"
  by (simp add: lawn_def) code_simp

lemma lawns_found:
  "search_results fromisoformat_py37 lawns
     (anonymous [(''title'', ''lawn''), (''page'', p)] []) = knocks lawns"
proof -
  let ?r = "anonymous [(''title'', ''lawn''), (''page'', p)] []"
  have g: "GET_get ?r ''title'' [] = ''lawn''" "GET_get ?r ''date'' [] = []"
    "GET_get ?r ''category'' [] = []"
    by (simp_all add: GET_get_def anonymous_def)
  have "\<forall>row \<in> set (knocks lawns). snd row = lawn"
    by (auto simp: lawns_def)
  then have "filter (\<lambda>row. icontains (title (snd row)) ''lawn'') (knocks lawns) = knocks lawns"
    by (intro filter_True) (simp add: lawn_titles)
  then show ?thesis
    by (simp add: search_results_eq g strips no_date)
qed

lemma length_lawns: "length (knocks lawns) = 45"
  by (simp add: lawns_def)

lemma page_numbers:
  "py_int ''9999'' = Some 9999" "py_int ''two'' = None" "py_int ''2'' = Some 2"
  "py_int [CHR 0x1C, CHR ''2''] = None"
  by code_simp+

subsection \<open>Searching: the claims\<close>

text \<open>
  C6. Whatever \<^verbatim>\<open>int\<close> and \<^verbatim>\<open>date.fromisoformat\<close> read, \<^verbatim>\<open>search\<close>
  never raises. When at least one filter applies (a \<^verbatim>\<open>title\<close> or \<^verbatim>\<open>category\<close>
  parameter that is not blank, a \<^verbatim>\<open>date\<close> parameter that parses), the rows found
  are exactly the knocks, in table order, that pass all the filters that apply: the
  title contains the \<^verbatim>\<open>title\<close> parameter without regard to case, the category
  likewise, and \<^verbatim>\<open>request_date\<close> equals the parsed date. The view answers with the
  page of these rows that has the number it reports, a number from 1 to the number of
  pages; this page is all the rows found when they are at most 20, and it is not empty
  unless no row is found. A \<^verbatim>\<open>date\<close> that does not parse is no filter: the rows are
  those the title and the category select.
\<close>

theorem search_conjunctive:
  "(\<exists>ctx. search to_int parse_date d request = Inr ctx)
   \<and> (strip (GET_get request ''title'' []) \<noteq> []
        \<or> parse_date (GET_get request ''date'' []) \<noteq> None
        \<or> strip (GET_get request ''category'' []) \<noteq> [] \<longrightarrow>
      (\<exists>ctx found.
          found =
            filter
              (\<lambda>row. (strip (GET_get request ''title'' []) \<noteq> [] \<longrightarrow>
                         icontains (title (snd row)) (GET_get request ''title'' []))
                   \<and> (\<forall>dt. parse_date (GET_get request ''date'' []) = Some dt \<longrightarrow>
                         request_date (snd row) = dt)
                   \<and> (strip (GET_get request ''category'' []) \<noteq> [] \<longrightarrow>
                         icontains (category (snd row)) (GET_get request ''category'' [])))
              (knocks d)
        \<and> search to_int parse_date d request = Inr ctx
        \<and> 1 \<le> number (results ctx)
        \<and> number (results ctx) \<le> int ((max 1 (length found) + 19) div 20)
        \<and> page_object_list (results ctx) =
            take 20 (drop (20 * nat (number (results ctx) - 1)) found)
        \<and> (length found \<le> 20 \<longrightarrow> page_object_list (results ctx) = found)
        \<and> (found \<noteq> [] \<longrightarrow> page_object_list (results ctx) \<noteq> [])
        \<and> (parse_date (GET_get request ''date'' []) = None \<longrightarrow>
            found =
              filter
                (\<lambda>row. (strip (GET_get request ''title'' []) \<noteq> [] \<longrightarrow>
                           icontains (title (snd row)) (GET_get request ''title'' []))
                     \<and> (strip (GET_get request ''category'' []) \<noteq> [] \<longrightarrow>
                           icontains (category (snd row)) (GET_get request ''category'' [])))
                (knocks d))))"
proof (intro conjI impI)
  show "\<exists>ctx. search to_int parse_date d request = Inr ctx"
    using search_numbered [of to_int parse_date d request] by blast
next
  let ?P = "\<lambda>row. (strip (GET_get request ''title'' []) \<noteq> [] \<longrightarrow>
                         icontains (title (snd row)) (GET_get request ''title'' []))
                   \<and> (\<forall>dt. parse_date (GET_get request ''date'' []) = Some dt \<longrightarrow>
                         request_date (snd row) = dt)
                   \<and> (strip (GET_get request ''category'' []) \<noteq> [] \<longrightarrow>
                         icontains (category (snd row)) (GET_get request ''category'' []))"
  let ?Q = "\<lambda>row. (strip (GET_get request ''title'' []) \<noteq> [] \<longrightarrow>
                           icontains (title (snd row)) (GET_get request ''title'' []))
                     \<and> (strip (GET_get request ''category'' []) \<noteq> [] \<longrightarrow>
                           icontains (category (snd row)) (GET_get request ''category'' []))"
  let ?found = "filter ?P (knocks d)"
  assume active: "strip (GET_get request ''title'' []) \<noteq> []
        \<or> parse_date (GET_get request ''date'' []) \<noteq> None
        \<or> strip (GET_get request ''category'' []) \<noteq> []"
  then have "\<not> (strip (GET_get request ''title'' []) = []
         \<and> parse_date (GET_get request ''date'' []) = None
         \<and> strip (GET_get request ''category'' []) = [])"
    by blast
  then have rows: "search_results parse_date d request = ?found"
    by (simp only: search_results_eq if_False)
  from search_numbered [of to_int parse_date d request] obtain ctx where
    s: "search to_int parse_date d request = Inr ctx"
    and pl: "page_object_list (results ctx) =
               take 20 (drop (20 * nat (number (results ctx) - 1)) ?found)"
    unfolding rows by blast
  have lo: "1 \<le> number (results ctx)"
    and hi: "number (results ctx) \<le> int ((max 1 (length ?found) + 19) div 20)"
    using search_number_bounds [OF s] unfolding rows by simp_all
  have small: "length ?found \<le> 20 \<longrightarrow> page_object_list (results ctx) = ?found"
  proof
    assume le: "length ?found \<le> 20"
    with hi have "number (results ctx) \<le> 1"
      by (simp only: ceil20_small [OF le])
    with lo have "number (results ctx) = 1"
      by simp
    with pl le show "page_object_list (results ctx) = ?found"
      by simp
  qed
  have ne: "?found \<noteq> [] \<longrightarrow> page_object_list (results ctx) \<noteq> []"
    unfolding pl using last_page_not_empty [OF _ lo hi] by blast
  have nodate: "parse_date (GET_get request ''date'' []) = None \<longrightarrow>
                  ?found = filter ?Q (knocks d)"
  proof
    assume none: "parse_date (GET_get request ''date'' []) = None"
    show "?found = filter ?Q (knocks d)"
      by (rule filter_cong) (simp_all add: none)
  qed
  show "\<exists>ctx found.
          found = ?found
        \<and> search to_int parse_date d request = Inr ctx
        \<and> 1 \<le> number (results ctx)
        \<and> number (results ctx) \<le> int ((max 1 (length found) + 19) div 20)
        \<and> page_object_list (results ctx) =
            take 20 (drop (20 * nat (number (results ctx) - 1)) found)
        \<and> (length found \<le> 20 \<longrightarrow> page_object_list (results ctx) = found)
        \<and> (found \<noteq> [] \<longrightarrow> page_object_list (results ctx) \<noteq> [])
        \<and> (parse_date (GET_get request ''date'' []) = None \<longrightarrow>
            found = filter ?Q (knocks d))"
    by (intro exI [of _ ctx] exI [of _ ?found] conjI refl s lo hi pl small ne nodate)
qed

theorem search_conjunctive_witness:
  "(\<exists>ctx. search py_int fromisoformat_py37 shop
            (anonymous [(''title'', ''BIKE''), (''date'', ''yesterday'')] []) = Inr ctx
      \<and> number (results ctx) = 1
      \<and> page_object_list (results ctx) = [(10, bike)])
   \<and> (\<exists>ctx. search py_int fromisoformat_py37 shop
            (anonymous [(''title'', ''E''), (''date'', ''2024-03-01''),
                        (''category'', ''gard'')] []) = Inr ctx
      \<and> number (results ctx) = 1
      \<and> page_object_list (results ctx) = [(11, lawn), (12, fence)])"
proof -
  let ?r = "anonymous [(''title'', ''BIKE''), (''date'', ''yesterday'')] []"
  let ?r' = "anonymous [(''title'', ''E''), (''date'', ''2024-03-01''),
                        (''category'', ''gard'')] []"
  have g: "GET_get ?r ''title'' [] = ''BIKE''" "GET_get ?r ''date'' [] = ''yesterday''"
    "GET_get ?r ''category'' [] = []"
    and g': "GET_get ?r' ''title'' [] = ''E''" "GET_get ?r' ''date'' [] = ''2024-03-01''"
    "GET_get ?r' ''category'' [] = ''gard''"
    by (simp_all add: GET_get_def anonymous_def)
  have k: "knocks shop = [(10, bike), (11, lawn), (12, fence)]"
    by (simp add: shop_def)
  from search_conjunctive [where to_int = py_int and parse_date = fromisoformat_py37
      and d = shop and request = ?r]
  obtain ctx where
    "search py_int fromisoformat_py37 shop ?r = Inr ctx"
    "1 \<le> number (results ctx)"
    "number (results ctx) \<le> int ((max 1 (length [(10::nat, bike)]) + 19) div 20)"
    "page_object_list (results ctx) = [(10, bike)]"
    by (auto simp: g yesterday strips k bike_titles)
  then have 1: "\<exists>ctx. search py_int fromisoformat_py37 shop ?r = Inr ctx
      \<and> number (results ctx) = 1 \<and> page_object_list (results ctx) = [(10, bike)]"
    by auto
  from search_conjunctive [where to_int = py_int and parse_date = fromisoformat_py37
      and d = shop and request = ?r']
  obtain ctx' where
    "search py_int fromisoformat_py37 shop ?r' = Inr ctx'"
    "1 \<le> number (results ctx')"
    "number (results ctx')
       \<le> int ((max 1 (length [(11::nat, lawn), (12, fence)]) + 19) div 20)"
    "page_object_list (results ctx') = [(11, lawn), (12, fence)]"
    by (auto simp: g' first_of_march strips k titles_E categories_gard request_dates)
  then have 2: "\<exists>ctx. search py_int fromisoformat_py37 shop ?r' = Inr ctx
      \<and> number (results ctx) = 1
      \<and> page_object_list (results ctx) = [(11, lawn), (12, fence)]"
    by auto
  from 1 2 show ?thesis by (rule conjI)
qed

text \<open>
  C7. \<^verbatim>\<open>search\<close> always answers with a page: the rows found from position
  \<open>20 * (number - 1)\<close> on, at most 20 of them, and at least one when any row is
  found. With a \<^verbatim>\<open>page\<close> parameter that is missing or that \<^verbatim>\<open>int\<close> does not
  read, the page is number 1; with an integer from 1 to the number of pages it is the
  page of that number; with an integer beyond the number of pages, and with one below
  1, it is the last page. The number of pages is the number of rows found (or 1 when
  there are none) divided by 20 and rounded up.
\<close>

theorem search_paginated:
  "\<exists>ctx. search to_int parse_date d request = Inr ctx
     \<and> page_object_list (results ctx) =
         take 20 (drop (20 * nat (number (results ctx) - 1))
                    (search_results parse_date d request))
     \<and> length (page_object_list (results ctx)) \<le> 20
     \<and> (search_results parse_date d request \<noteq> [] \<longrightarrow>
           page_object_list (results ctx) \<noteq> [])
     \<and> (GET request ''page'' = None
          \<or> (\<exists>s. GET request ''page'' = Some s \<and> to_int s = None) \<longrightarrow>
         number (results ctx) = 1)
     \<and> (\<forall>s n. GET request ''page'' = Some s \<and> to_int s = Some n \<and> 1 \<le> n
           \<and> n \<le> int (num_pages (Paginator (search_results parse_date d request) 20)) \<longrightarrow>
         number (results ctx) = n)
     \<and> (\<forall>s n. GET request ''page'' = Some s \<and> to_int s = Some n
           \<and> int (num_pages (Paginator (search_results parse_date d request) 20)) < n \<longrightarrow>
         number (results ctx) =
           int (num_pages (Paginator (search_results parse_date d request) 20)))
     \<and> (\<forall>s n. GET request ''page'' = Some s \<and> to_int s = Some n \<and> n < 1 \<longrightarrow>
         number (results ctx) =
           int (num_pages (Paginator (search_results parse_date d request) 20)))
     \<and> num_pages (Paginator (search_results parse_date d request) 20) =
         (max 1 (length (search_results parse_date d request)) + 19) div 20"
proof -
  let ?rows = "search_results parse_date d request"
  let ?np = "num_pages (Paginator ?rows 20)"
  from search_numbered [of to_int parse_date d request] obtain ctx where
    s: "search to_int parse_date d request = Inr ctx"
    and pl: "page_object_list (results ctx) =
               take 20 (drop (20 * nat (number (results ctx) - 1)) ?rows)"
    and n: "number (results ctx) =
         (case GET request ''page'' of
            None \<Rightarrow> 1
          | Some s \<Rightarrow>
             (case to_int s of
                None \<Rightarrow> 1
              | Some m \<Rightarrow> if m < 1 \<or> int ?np < m then int ?np else m))"
    unfolding num_pages_20 by blast
  have len: "length (page_object_list (results ctx)) \<le> 20"
    unfolding pl by simp
  have ne: "?rows \<noteq> [] \<longrightarrow> page_object_list (results ctx) \<noteq> []"
    unfolding pl using last_page_not_empty search_number_bounds [OF s] by blast
  have 1: "GET request ''page'' = None
          \<or> (\<exists>s. GET request ''page'' = Some s \<and> to_int s = None) \<longrightarrow>
         number (results ctx) = 1"
    unfolding n by auto
  have 2: "\<forall>s m. GET request ''page'' = Some s \<and> to_int s = Some m \<and> 1 \<le> m
           \<and> m \<le> int ?np \<longrightarrow> number (results ctx) = m"
    unfolding n by auto
  have 3: "\<forall>s m. GET request ''page'' = Some s \<and> to_int s = Some m \<and> int ?np < m \<longrightarrow>
         number (results ctx) = int ?np"
    unfolding n by auto
  have 4: "\<forall>s m. GET request ''page'' = Some s \<and> to_int s = Some m \<and> m < 1 \<longrightarrow>
         number (results ctx) = int ?np"
    unfolding n by auto
  show ?thesis
    by (intro exI [of _ ctx] conjI s pl len ne 1 2 3 4 num_pages_20)
qed

theorem search_paginated_witness:
  "(\<exists>ctx. search py_int fromisoformat_py37 lawns
            (anonymous [(''title'', ''lawn''), (''page'', ''9999'')] []) = Inr ctx
      \<and> number (results ctx) = 3
      \<and> page_object_list (results ctx) = drop 40 (knocks lawns))
   \<and> (\<exists>ctx. search py_int fromisoformat_py37 lawns
            (anonymous [(''title'', ''lawn''), (''page'', ''two'')] []) = Inr ctx
      \<and> number (results ctx) = 1
      \<and> page_object_list (results ctx) = take 20 (knocks lawns))
   \<and> (\<exists>ctx. search py_int fromisoformat_py37 lawns
            (anonymous [(''title'', ''lawn''), (''page'', [CHR 0x1C, CHR ''2''])] []) = Inr ctx
      \<and> number (results ctx) = 1
      \<and> page_object_list (results ctx) = take 20 (knocks lawns))
   \<and> (\<exists>ctx. search py_int fromisoformat_py37 lawns
            (anonymous [(''title'', ''lawn''), (''page'', ''2'')] []) = Inr ctx
      \<and> number (results ctx) = 2
      \<and> page_object_list (results ctx) = take 20 (drop 20 (knocks lawns)))"
proof -
  have np: "num_pages (Paginator (knocks lawns) 20) = 3"
    by (simp add: num_pages_20 length_lawns)
  have page: "GET (anonymous [(''title'', ''lawn''), (''page'', p)] []) ''page'' = Some p"
    for p
    by (simp add: anonymous_def)
  have 1: "\<exists>ctx. search py_int fromisoformat_py37 lawns
            (anonymous [(''title'', ''lawn''), (''page'', ''9999'')] []) = Inr ctx
      \<and> number (results ctx) = 3
      \<and> page_object_list (results ctx) = drop 40 (knocks lawns)"
    using search_paginated [where to_int = py_int and parse_date = fromisoformat_py37
        and d = lawns and request = "anonymous [(''title'', ''lawn''), (''page'', ''9999'')] []"]
    by (auto simp: lawns_found np page page_numbers length_lawns)
  have 2: "\<exists>ctx. search py_int fromisoformat_py37 lawns
            (anonymous [(''title'', ''lawn''), (''page'', ''two'')] []) = Inr ctx
      \<and> number (results ctx) = 1
      \<and> page_object_list (results ctx) = take 20 (knocks lawns)"
    using search_paginated [where to_int = py_int and parse_date = fromisoformat_py37
        and d = lawns and request = "anonymous [(''title'', ''lawn''), (''page'', ''two'')] []"]
    by (auto simp: lawns_found np page page_numbers)
  have 3: "\<exists>ctx. search py_int fromisoformat_py37 lawns
            (anonymous [(''title'', ''lawn''), (''page'', [CHR 0x1C, CHR ''2''])] []) = Inr ctx
      \<and> number (results ctx) = 1
      \<and> page_object_list (results ctx) = take 20 (knocks lawns)"
    using search_paginated [where to_int = py_int and parse_date = fromisoformat_py37
        and d = lawns
        and request = "anonymous [(''title'', ''lawn''), (''page'', [CHR 0x1C, CHR ''2''])] []"]
    by (auto simp: lawns_found np page page_numbers)
  have 4: "\<exists>ctx. search py_int fromisoformat_py37 lawns
            (anonymous [(''title'', ''lawn''), (''page'', ''2'')] []) = Inr ctx
      \<and> number (results ctx) = 2
      \<and> page_object_list (results ctx) = take 20 (drop 20 (knocks lawns))"
    using search_paginated [where to_int = py_int and parse_date = fromisoformat_py37
        and d = lawns and request = "anonymous [(''title'', ''lawn''), (''page'', ''2'')] []"]
    by (auto simp: lawns_found np page page_numbers)
  from 1 2 3 4 show ?thesis by (intro conjI)
qed

text \<open>
  C10. When the \<^verbatim>\<open>title\<close> and \<^verbatim>\<open>category\<close> parameters are absent or blank and
  the \<^verbatim>\<open>date\<close> parameter is absent or does not parse, \<^verbatim>\<open>search\<close> finds no row
  at all, whatever the table holds, and answers with the empty page number 1.
\<close>

theorem search_without_filter_is_empty:
  assumes "strip (GET_get request ''title'' []) = []"
    and "strip (GET_get request ''category'' []) = []"
    and "parse_date (GET_get request ''date'' []) = None"
  shows "search_results parse_date d request = []
       \<and> (\<exists>ctx. search to_int parse_date d request = Inr ctx
             \<and> page_object_list (results ctx) = [] \<and> number (results ctx) = 1)"
proof -
  have r: "search_results parse_date d request = []"
    using assms by (simp add: search_results_eq)
  from search_numbered [of to_int parse_date d request] obtain ctx where
    s: "search to_int parse_date d request = Inr ctx"
    and pl: "page_object_list (results ctx) =
               take 20 (drop (20 * nat (number (results ctx) - 1))
                          (search_results parse_date d request))"
    by blast
  from search_number_bounds [OF s] have "number (results ctx) = 1"
    unfolding r by simp
  with s pl r show ?thesis
    by simp
qed

theorem search_without_filter_is_empty_witness:
  "knocks shop \<noteq> []
   \<and> search_results fromisoformat_py37 shop
       (anonymous [(''title'', ''  ''), (''date'', ''yesterday'')] []) = []
   \<and> (\<exists>ctx. search py_int fromisoformat_py37 shop
               (anonymous [(''title'', ''  ''), (''date'', ''yesterday'')] []) = Inr ctx
         \<and> page_object_list (results ctx) = [] \<and> number (results ctx) = 1)
   \<and> (\<exists>ctx. search py_int fromisoformat_py37 shop (anonymous [] []) = Inr ctx
         \<and> page_object_list (results ctx) = [] \<and> number (results ctx) = 1)"
proof -
  let ?r = "anonymous [(''title'', ''  ''), (''date'', ''yesterday'')] []"
  have t: "strip (GET_get ?r ''title'' []) = []"
    and c: "strip (GET_get ?r ''category'' []) = []"
    and dt: "fromisoformat_py37 (GET_get ?r ''date'' []) = None"
    by (simp_all add: GET_get_def anonymous_def strips yesterday)
  have t': "strip (GET_get (anonymous [] []) ''title'' []) = []"
    and c': "strip (GET_get (anonymous [] []) ''category'' []) = []"
    and dt': "fromisoformat_py37 (GET_get (anonymous [] []) ''date'' []) = None"
    by (simp_all add: GET_get_def anonymous_def strips no_date)
  have k: "knocks shop \<noteq> []"
    by (simp add: shop_def)
  from search_without_filter_is_empty
         [where to_int = py_int and parse_date = fromisoformat_py37 and d = shop, OF t c dt]
       search_without_filter_is_empty
         [where to_int = py_int and parse_date = fromisoformat_py37 and d = shop,
          OF t' c' dt'] k
  show ?thesis
    by blast
qed

end
